theory Spec2Isabelle
  imports Main "HOL-Library.Word" "HOL-Library.Multiset" "HOL-Library.Char_ord"
    "HOL-Library.List_Lexorder" "HOL-Library.Product_Lexorder"
begin

section \<open>Configuration\<close>

text \<open>
  \<^verbatim>\<open>struct Disorderfs_config\<close>: every member is a C \<^verbatim>\<open>int\<close> (the booleans too,
  because \<^verbatim>\<open>fuse_opt_parse\<close> writes ints); a flag is enabled when it is non-zero.
\<close>

record Disorderfs_config =
  multi_user :: "32 word"
  shuffle_dirents :: "32 word"
  reverse_dirents :: "32 word"
  sort_dirents :: "32 word"
  pad_blocks :: "32 word"
  share_locks :: "32 word"
  quiet :: "32 word"
  sort_by_ctime :: "32 word"

text \<open>The default member initialisers of the struct: the value of the global
  \<^verbatim>\<open>config\<close> before any command-line option is applied.\<close>

definition config_default :: Disorderfs_config where
  "config_default =
     \<lparr>multi_user = 0, shuffle_dirents = 0, reverse_dirents = 1, sort_dirents = 0,
      pad_blocks = 1, share_locks = 0, quiet = 0, sort_by_ctime = 0\<rparr>"

section \<open>Data of the directory engine\<close>

type_synonym uid_t = "32 word"
type_synonym gid_t = "32 word"
type_synonym ino_t = "64 word"

text \<open>\<^verbatim>\<open>using Dirents = std::vector<std::pair<std::string, ino_t>>\<close>. A
  \<^verbatim>\<open>std::string\<close> is a byte sequence compared bytewise as unsigned chars, which is
  the lexicographic order of \<^typ>\<open>string\<close>; \<^verbatim>\<open>std::pair\<close> compares
  lexicographically, first component first.\<close>

type_synonym dirent = "string \<times> ino_t"
type_synonym Dirents = "dirent list"

text \<open>\<^verbatim>\<open>struct timespec\<close>: \<^verbatim>\<open>time_t tv_sec; long tv_nsec\<close>, both signed. The
  program only compares them, so their values are kept as integers.\<close>

record timespec =
  tv_sec :: int
  tv_nsec :: int

type_synonym Ctime_Dirent_pair = "timespec \<times> dirent"

text \<open>The members of \<^verbatim>\<open>struct stat\<close> the program reads or writes.
  \<^verbatim>\<open>st_blocks\<close> is a 64-bit \<^verbatim>\<open>blkcnt_t\<close>.\<close>

record stat =
  st_ino :: ino_t
  st_blocks :: "64 word"
  st_ctim :: timespec

text \<open>\<^verbatim>\<open>bool operator< (const timespec first, const timespec second)\<close>\<close>

definition timespec_less :: "timespec \<Rightarrow> timespec \<Rightarrow> bool" where
  "timespec_less first second =
     (if tv_sec first < tv_sec second then True
      else if tv_sec first = tv_sec second then tv_nsec first < tv_nsec second
      else False)"

text \<open>\<^verbatim>\<open>const timespec INVALID = {0,0}\<close>\<close>

definition INVALID :: timespec where
  "INVALID = \<lparr>tv_sec = 0, tv_nsec = 0\<rparr>"

definition compare_ctime_dirents :: "Ctime_Dirent_pair \<Rightarrow> Ctime_Dirent_pair \<Rightarrow> bool" where
  "compare_ctime_dirents a b = timespec_less (fst a) (fst b)"

text \<open>Error numbers of \<^verbatim>\<open>errno.h\<close> (Linux).\<close>

definition ENOMEM :: int where
  "ENOMEM = 12"

definition ENOENT :: int where
  "ENOENT = 2"

definition EBADF :: int where
  "EBADF = 9"

section \<open>The world outside the program\<close>

subsection \<open>Thread credentials and the credential system calls\<close>

text \<open>The raw system calls issued through \<^verbatim>\<open>syscall(2)\<close>, with their arguments.
  \<^verbatim>\<open>static_cast<uid_t>(-1)\<close> is the word \<open>- 1\<close> and means "leave unchanged".\<close>

datatype syscall =
    SYS_setresuid uid_t uid_t uid_t
  | SYS_setresgid gid_t gid_t gid_t
  | SYS_setgroups "gid_t list"

text \<open>The credentials of the calling thread, and the log of the credential system calls
  it has issued so far, each with the value \<^verbatim>\<open>syscall\<close> returned.\<close>

record thread_state =
  ruid :: uid_t
  euid :: uid_t
  egid :: gid_t
  groups :: "gid_t list"
  sys_trace :: "(syscall \<times> int) list"

text \<open>
  Everything the operating system, libfuse and the underlying filesystem answer during
  one operation:
  \<^item> \<open>kernel_permits\<close>: whether the kernel lets the thread, in its current state, perform
    a credential system call;
  \<^item> \<open>sysconf_NGROUPS_MAX\<close>: the value of \<^verbatim>\<open>sysconf(_SC_NGROUPS_MAX)\<close>;
  \<^item> \<open>caller_groups\<close>: what \<^verbatim>\<open>fuse_getgroups\<close> finds: \<open>Inl r\<close> when it fails with the
    (negative) return value \<open>r\<close>, \<open>Inr gs\<close> the caller's supplementary groups;
  \<^item> \<open>context_uid\<close>, \<open>context_gid\<close>: \<^verbatim>\<open>fuse_get_context()->uid\<close> and \<^verbatim>\<open>->gid\<close>;
  \<^item> \<open>fs_opendir\<close>: \<^verbatim>\<open>opendir(3)\<close> followed by \<^verbatim>\<open>readdir(3)\<close> until it returns
    \<^verbatim>\<open>NULL\<close>: \<open>Inl e\<close> when \<^verbatim>\<open>opendir\<close> fails with \<^verbatim>\<open>errno = e\<close>, otherwise
    the entries in the order the filesystem yields them, and the value the last
    \<^verbatim>\<open>readdir\<close> leaves in \<^verbatim>\<open>errno\<close> (0 at the end of the directory, where
    \<^verbatim>\<open>readdir\<close> does not touch it);
  \<^item> \<open>fs_lstat\<close>: \<^verbatim>\<open>lstat(2)\<close>: \<open>Inl e\<close> when it returns -1 with \<^verbatim>\<open>errno = e\<close>;
  \<^item> \<open>fs_fstat\<close>: \<^verbatim>\<open>fstat(2)\<close> on a descriptor, likewise;
  \<^item> \<open>fs_closedir\<close>: \<^verbatim>\<open>closedir(3)\<close>: \<open>None\<close> on success (\<^verbatim>\<open>errno\<close> untouched),
    \<open>Some e\<close> when it fails with \<^verbatim>\<open>errno = e\<close>.
\<close>

record env =
  kernel_permits :: "thread_state \<Rightarrow> syscall \<Rightarrow> bool"
  sysconf_NGROUPS_MAX :: int
  caller_groups :: "int + gid_t list"
  context_uid :: uid_t
  context_gid :: gid_t
  fs_opendir :: "string \<Rightarrow> int + (Dirents \<times> int)"
  fs_lstat :: "string \<Rightarrow> int + stat"
  fs_fstat :: "nat \<Rightarrow> int + stat"
  fs_closedir :: "int option"

text \<open>The effect of a permitted credential system call on the thread.\<close>

fun apply_syscall :: "syscall \<Rightarrow> thread_state \<Rightarrow> thread_state" where
  "apply_syscall (SYS_setresuid r e s) t =
     t\<lparr>ruid := (if r = - 1 then ruid t else r), euid := (if e = - 1 then euid t else e)\<rparr>"
| "apply_syscall (SYS_setresgid r e s) t =
     t\<lparr>egid := (if e = - 1 then egid t else e)\<rparr>"
| "apply_syscall (SYS_setgroups gs) t = t\<lparr>groups := gs\<rparr>"

text \<open>\<^verbatim>\<open>syscall(2)\<close>: 0 on success, -1 on failure; either way the call is logged.\<close>

definition do_syscall :: "env \<Rightarrow> syscall \<Rightarrow> thread_state \<Rightarrow> int \<times> thread_state" where
  "do_syscall E c t =
     (if kernel_permits E t c
      then (0, (apply_syscall c t)\<lparr>sys_trace := sys_trace t @ [(c, 0)]\<rparr>)
      else (- 1, t\<lparr>sys_trace := sys_trace t @ [(c, - 1)]\<rparr>))"

section \<open>The privilege separation guard\<close>

text \<open>A function either returns, or the process is gone: \<^verbatim>\<open>perror_and_die\<close> prints
  its argument and calls \<^verbatim>\<open>std::abort\<close>. \<open>Aborted\<close> keeps the message and the state of
  the thread at that moment.\<close>

datatype 'a outcome = Aborted string thread_state | Returned 'a

definition perror_and_die :: "string \<Rightarrow> thread_state \<Rightarrow> 'a outcome" where
  "perror_and_die s t = Aborted s t"

definition thread_seteuid :: "env \<Rightarrow> uid_t \<Rightarrow> thread_state \<Rightarrow> int \<times> thread_state" where
  "thread_seteuid E euid' t = do_syscall E (SYS_setresuid (- 1) euid' (- 1)) t"

definition thread_setegid :: "env \<Rightarrow> gid_t \<Rightarrow> thread_state \<Rightarrow> int \<times> thread_state" where
  "thread_setegid E egid' t = do_syscall E (SYS_setresgid (- 1) egid' (- 1)) t"

definition thread_setgroups :: "env \<Rightarrow> gid_t list \<Rightarrow> thread_state \<Rightarrow> int \<times> thread_state" where
  "thread_setgroups E list t = do_syscall E (SYS_setgroups list) t"

text \<open>\<^verbatim>\<open>fuse_getgroups(size, list)\<close>: returns the total number of the caller's groups
  and stores at most \<open>size\<close> of them, or returns a negative value and stores nothing.\<close>

definition fuse_getgroups :: "env \<Rightarrow> nat \<Rightarrow> int \<times> gid_t list" where
  "fuse_getgroups E size' =
     (case caller_groups E of
        Inl r \<Rightarrow> (r, [])
      | Inr gs \<Rightarrow> (int (length gs), take size' gs))"

text \<open>\<^verbatim>\<open>get_fuse_groups\<close>: the vector starts as \<open>ngroups_max + 1\<close> zeros, the stored ids
  overwrite its front.\<close>

definition get_fuse_groups :: "env \<Rightarrow> gid_t list" where
  "get_fuse_groups E =
     (let ngroups_max = (if sysconf_NGROUPS_MAX E < 0 then 65536 else sysconf_NGROUPS_MAX E);
          size' = nat (ngroups_max + 1);
          (ngroups, stored) = fuse_getgroups E size';
          groups0 = stored @ replicate (size' - length stored) 0
      in if ngroups < 0 then []
         else if nat ngroups < size' then take (nat ngroups) groups0
         else groups0)"

definition drop_privileges :: "env \<Rightarrow> thread_state \<Rightarrow> thread_state outcome" where
  "drop_privileges E t =
     (let groups' = get_fuse_groups E;
          (r1, t1) = thread_setgroups E groups' t
      in if r1 = - 1 then perror_and_die ''setgroups'' t1
         else let (r2, t2) = thread_setegid E (context_gid E) t1
              in if r2 = - 1 then perror_and_die ''setegid'' t2
                 else let (r3, t3) = thread_seteuid E (context_uid E) t2
                      in if r3 = - 1 then perror_and_die ''seteuid'' t3
                         else Returned t3)"

definition restore_privileges :: "env \<Rightarrow> thread_state \<Rightarrow> thread_state outcome" where
  "restore_privileges E t =
     (let groups' = [];
          (r1, t1) = thread_seteuid E 0 t
      in if r1 = - 1 then perror_and_die ''seteuid()'' t1
         else let (r2, t2) = thread_setegid E 0 t1
              in if r2 = - 1 then perror_and_die ''setegid(0)'' t2
                 else let (r3, t3) = thread_setgroups E groups' t2
                      in if r3 = - 1 then perror_and_die ''setgroups(0)'' t3
                         else Returned t3)"

text \<open>\<^verbatim>\<open>struct Guard\<close>: the constructor and the destructor. \<^verbatim>\<open>getuid()\<close> is the real
  uid of the thread.\<close>

definition Guard_ctor :: "Disorderfs_config \<Rightarrow> env \<Rightarrow> thread_state \<Rightarrow> thread_state outcome" where
  "Guard_ctor cfg E t =
     (if multi_user cfg \<noteq> 0 \<and> ruid t = 0 then drop_privileges E t else Returned t)"

definition Guard_dtor :: "Disorderfs_config \<Rightarrow> env \<Rightarrow> thread_state \<Rightarrow> thread_state outcome" where
  "Guard_dtor cfg E t =
     (if multi_user cfg \<noteq> 0 \<and> ruid t = 0 then restore_privileges E t else Returned t)"

text \<open>An operation whose body starts with \<^verbatim>\<open>Guard g;\<close>: the constructor runs, then the
  body computes its result \<open>r\<close>, then the destructor runs on every exit path.\<close>

definition with_Guard ::
  "Disorderfs_config \<Rightarrow> env \<Rightarrow> 'a \<Rightarrow> thread_state \<Rightarrow> ('a \<times> thread_state) outcome" where
  "with_Guard cfg E r t =
     (case Guard_ctor cfg E t of
        Aborted m t' \<Rightarrow> Aborted m t'
      | Returned t1 \<Rightarrow>
          (case Guard_dtor cfg E t1 of
             Aborted m t' \<Rightarrow> Aborted m t'
           | Returned t2 \<Rightarrow> Returned (r, t2)))"

section \<open>The C++ standard library\<close>

text \<open>
  \<^verbatim>\<open>std::sort\<close> and \<^verbatim>\<open>std::shuffle\<close> are library code. The program is linked against
  some implementation of them, which is a parameter of the model:
  \<^item> \<open>std_sort_dirents\<close>: \<^verbatim>\<open>std::sort(first, last)\<close> on a \<^verbatim>\<open>Dirents\<close>, comparing
    with \<^verbatim>\<open>operator<\<close> of \<^verbatim>\<open>std::pair<std::string, ino_t>\<close>;
  \<^item> \<open>std_sort_ctime\<close>: \<^verbatim>\<open>std::sort(first, last, compare_ctime_dirents)\<close>;
  \<^item> \<open>std_shuffle\<close>: \<^verbatim>\<open>std::mt19937 g(seed); std::shuffle(first, last, g)\<close>: the
    engine is a deterministic function of its 32-bit seed.
\<close>

record stdlib =
  std_sort_dirents :: "Dirents \<Rightarrow> Dirents"
  std_sort_ctime :: "Ctime_Dirent_pair list \<Rightarrow> Ctime_Dirent_pair list"
  std_shuffle :: "32 word \<Rightarrow> Dirents \<Rightarrow> Dirents"

text \<open>What the C++ standard promises of \<^verbatim>\<open>std::sort\<close> with comparison \<open>cmp\<close>: the
  range is permuted, and afterwards no element is \<open>cmp\<close>-less than one before it. The
  order of equivalent elements is not promised.\<close>

definition std_sort_post :: "('a \<Rightarrow> 'a \<Rightarrow> bool) \<Rightarrow> 'a list \<Rightarrow> 'a list \<Rightarrow> bool" where
  "std_sort_post cmp xs ys \<longleftrightarrow> mset ys = mset xs \<and> sorted_wrt (\<lambda>a b. \<not> cmp b a) ys"

text \<open>A library that keeps the promises of the standard; of \<^verbatim>\<open>std::shuffle\<close>: the
  range is permuted.\<close>

definition conforming :: "stdlib \<Rightarrow> bool" where
  "conforming L \<longleftrightarrow>
     (\<forall>xs. std_sort_post (<) xs (std_sort_dirents L xs)) \<and>
     (\<forall>xs. std_sort_post compare_ctime_dirents xs (std_sort_ctime L xs)) \<and>
     (\<forall>seed xs. mset (std_shuffle L seed xs) = mset xs)"

section \<open>The directory snapshot builder\<close>

text \<open>What \<^verbatim>\<open>create_ctime_dirents_list\<close> leaves behind: its return value, the paths it
  passed to \<^verbatim>\<open>lstat\<close> in order, what it wrote to \<^verbatim>\<open>std::cerr\<close>, and \<^verbatim>\<open>errno\<close>.\<close>

record ctime_capture =
  result :: "Ctime_Dirent_pair list"
  lstat_calls :: "string list"
  cerr :: "string list"
  errno :: int

definition lstat_warning :: "string \<Rightarrow> string list" where
  "lstat_warning el_abspath =
     [''WARNING: lstat returned -1 for '' @ [CHR 0x0A] @ el_abspath @ [CHR 0x0A],
      ''WARNING: replacing ctime with {0s, 0ns}'' @ [CHR 0x0A]]"

text \<open>The loop of \<^verbatim>\<open>create_ctime_dirents_list\<close> over the entries; \<open>errno0\<close> is the
  value of \<^verbatim>\<open>errno\<close> when the loop reaches the entry. A failing \<^verbatim>\<open>lstat\<close> sets
  \<^verbatim>\<open>errno\<close>, a successful one leaves it alone, and no library function ever sets
  \<^verbatim>\<open>errno\<close> to 0.\<close>

fun ctime_loop :: "env \<Rightarrow> string \<Rightarrow> Dirents \<Rightarrow> int \<Rightarrow> ctime_capture" where
  "ctime_loop E abspath [] errno0 =
     \<lparr>result = [], lstat_calls = [], cerr = [], errno = errno0\<rparr>"
| "ctime_loop E abspath (i # rest) errno0 =
     (let el_abspath = abspath @ fst i in
      case fs_lstat E el_abspath of
        Inl e \<Rightarrow>
          (let c = ctime_loop E abspath rest e in
           c\<lparr>result := (INVALID, i) # result c,
             lstat_calls := el_abspath # lstat_calls c,
             cerr := lstat_warning el_abspath @ cerr c\<rparr>)
      | Inr buffer \<Rightarrow>
          (let c = ctime_loop E abspath rest errno0 in
           c\<lparr>result := (st_ctim buffer, i) # result c,
             lstat_calls := el_abspath # lstat_calls c\<rparr>))"

text \<open>\<^verbatim>\<open>if(abspath.back() != '/'){ abspath.push_back('/'); }\<close>.
  \<^verbatim>\<open>abspath.back()\<close> is undefined on an empty string; \<open>root\<close> is an absolute path,
  so the argument is never empty.\<close>

definition with_trailing_slash :: "string \<Rightarrow> string" where
  "with_trailing_slash abspath =
     (if abspath = [] \<or> last abspath \<noteq> CHR ''/'' then abspath @ ''/'' else abspath)"

definition create_ctime_dirents_list :: "env \<Rightarrow> Dirents \<Rightarrow> string \<Rightarrow> int \<Rightarrow> ctime_capture" where
  "create_ctime_dirents_list E dirents abspath errno0 =
     ctime_loop E (with_trailing_slash abspath) dirents errno0"

text \<open>\<^verbatim>\<open>overwrite_dirents\<close>: the loop over \<open>i < sorted_interim.size()\<close>. Its stated
  precondition is that both vectors have the same size.\<close>

definition overwrite_dirents :: "Dirents \<Rightarrow> Ctime_Dirent_pair list \<Rightarrow> Dirents" where
  "overwrite_dirents dirents sorted_interim =
     fold (\<lambda>i ds. ds[i := snd (sorted_interim ! i)]) [0..<length sorted_interim] dirents"

text \<open>\<^verbatim>\<open>struct fuse_file_info\<close>: the 64-bit field \<^verbatim>\<open>fh\<close> holds a file descriptor, or
  (through \<^verbatim>\<open>set_fuse_data\<close>) the address of the \<^verbatim>\<open>Dirents\<close> of an open directory.\<close>

record fuse_file_info =
  fh :: nat

text \<open>The heap of \<^verbatim>\<open>Dirents\<close> objects: address \<open>p\<close> holds a live object when
  \<open>heap_get h p = Some dirents\<close>. \<^verbatim>\<open>new\<close> returns an address that was never used.\<close>

type_synonym heap = "Dirents option list"

definition heap_get :: "heap \<Rightarrow> nat \<Rightarrow> Dirents option" where
  "heap_get h p = (if p < length h then h ! p else None)"

definition heap_new :: "heap \<Rightarrow> Dirents \<Rightarrow> nat \<times> heap" where
  "heap_new h dirents = (length h, h @ [Some dirents])"

text \<open>What the \<^verbatim>\<open>opendir\<close> operation leaves behind: its return value, the
  \<^verbatim>\<open>fuse_file_info\<close>, the heap, what was written to \<^verbatim>\<open>std::cerr\<close> and the paths
  passed to \<^verbatim>\<open>lstat\<close>.\<close>

record opendir_result =
  retval :: int
  info_out :: fuse_file_info
  heap_out :: heap
  cerr_out :: "string list"
  lstat_log :: "string list"

text \<open>The block \<^verbatim>\<open>if (config.sort_dirents) { ... }\<close> of \<^verbatim>\<open>opendir\<close>: the vector
  after it, and what the ctime capture left behind (\<^verbatim>\<open>errno\<close> is \<open>errno0\<close> before
  the block; only \<^verbatim>\<open>lstat\<close> touches it).\<close>

definition sort_step ::
  "Disorderfs_config \<Rightarrow> stdlib \<Rightarrow> env \<Rightarrow> string \<Rightarrow> Dirents \<Rightarrow> int \<Rightarrow> Dirents \<times> ctime_capture" where
  "sort_step cfg L E abspath dirents errno0 =
     (if sort_dirents cfg \<noteq> 0 then
        (if sort_by_ctime cfg \<noteq> 0 then
           (let c = create_ctime_dirents_list E dirents abspath errno0;
                tmp = std_sort_ctime L (result c)
            in (overwrite_dirents dirents tmp, c))
         else
           (std_sort_dirents L dirents,
            \<lparr>result = [], lstat_calls = [], cerr = [], errno = errno0\<rparr>))
      else
        (dirents, \<lparr>result = [], lstat_calls = [], cerr = [], errno = errno0\<rparr>))"

text \<open>The block \<^verbatim>\<open>if (config.reverse_dirents) { std::reverse(...); }\<close>\<close>

definition reverse_step :: "Disorderfs_config \<Rightarrow> Dirents \<Rightarrow> Dirents" where
  "reverse_step cfg dirents = (if reverse_dirents cfg \<noteq> 0 then rev dirents else dirents)"

text \<open>
  The body of the \<^verbatim>\<open>opendir\<close> operation after \<^verbatim>\<open>Guard g;\<close>. \<^verbatim>\<open>errno\<close> is threaded
  through as the source reads it: set to 0 before the \<^verbatim>\<open>readdir\<close> loop, tested after
  it, and tested again after \<^verbatim>\<open>closedir\<close>, whose own return value is not looked at.
  The \<^verbatim>\<open>unique_ptr\<close> frees the vector on the early returns, so the heap only changes
  when the pointer is released into \<^verbatim>\<open>info\<close>.
\<close>

definition opendir_body ::
  "Disorderfs_config \<Rightarrow> stdlib \<Rightarrow> env \<Rightarrow> string \<Rightarrow> string \<Rightarrow> fuse_file_info \<Rightarrow> heap
     \<Rightarrow> opendir_result" where
  "opendir_body cfg L E root path info h =
     (case fs_opendir E (root @ path) of
        Inl e \<Rightarrow>
          \<lparr>retval = - e, info_out = info, heap_out = h, cerr_out = [], lstat_log = []\<rparr>
      | Inr (entries, errno1) \<Rightarrow>
          if errno1 \<noteq> 0 then
            \<lparr>retval = - errno1, info_out = info, heap_out = h, cerr_out = [], lstat_log = []\<rparr>
          else
            let (dirents1, c) = sort_step cfg L E (root @ path) entries errno1;
                dirents2 = reverse_step cfg dirents1;
                errno2 = (case fs_closedir E of None \<Rightarrow> errno c | Some e \<Rightarrow> e)
            in if errno2 \<noteq> 0 then
                 \<lparr>retval = - errno2, info_out = info, heap_out = h,
                  cerr_out = cerr c, lstat_log = lstat_calls c\<rparr>
               else
                 (let (p, h') = heap_new h dirents2
                  in \<lparr>retval = 0, info_out = info\<lparr>fh := p\<rparr>, heap_out = h',
                      cerr_out = cerr c, lstat_log = lstat_calls c\<rparr>))"

definition opendir ::
  "Disorderfs_config \<Rightarrow> stdlib \<Rightarrow> env \<Rightarrow> string \<Rightarrow> string \<Rightarrow> fuse_file_info \<Rightarrow> heap
     \<Rightarrow> thread_state \<Rightarrow> (opendir_result \<times> thread_state) outcome" where
  "opendir cfg L E root path info h t =
     with_Guard cfg E (opendir_body cfg L E root path info h) t"

text \<open>The \<^verbatim>\<open>Dirents\<close> a \<^verbatim>\<open>fuse_file_info\<close> points to:
  \<^verbatim>\<open>*get_fuse_data<Dirents*>(info)\<close>.\<close>

definition snapshot :: "fuse_file_info \<Rightarrow> heap \<Rightarrow> Dirents option" where
  "snapshot info h = heap_get h (fh info)"

section \<open>Enumeration and release\<close>

text \<open>\<^verbatim>\<open>fuse_fill_dir_t\<close>, the callback the dispatcher passes to \<^verbatim>\<open>readdir\<close>: given
  the buffer, a name, a \<^verbatim>\<open>struct stat\<close> and an offset, it returns 0 when it took the
  entry and non-zero when it refused it, and the buffer as it left it.\<close>

type_synonym 'b fuse_fill_dir_t = "'b \<Rightarrow> string \<Rightarrow> stat \<Rightarrow> int \<Rightarrow> int \<times> 'b"

text \<open>\<^verbatim>\<open>memset(&st, 0, sizeof(st))\<close>\<close>

definition zero_stat :: stat where
  "zero_stat = \<lparr>st_ino = 0, st_blocks = 0, st_ctim = \<lparr>tv_sec = 0, tv_nsec = 0\<rparr>\<rparr>"

text \<open>The loop \<^verbatim>\<open>for (const auto dirent : dirents)\<close> of \<^verbatim>\<open>readdir\<close>: the return
  value, the buffer, and the entries the callback took, in order.\<close>

fun fill_loop :: "'b fuse_fill_dir_t \<Rightarrow> 'b \<Rightarrow> Dirents \<Rightarrow> int \<times> 'b \<times> Dirents" where
  "fill_loop filler buf [] = (0, buf, [])"
| "fill_loop filler buf (dirent # rest) =
     (case filler buf (fst dirent) (zero_stat\<lparr>st_ino := snd dirent\<rparr>) 0 of
        (r, buf') \<Rightarrow>
          if r \<noteq> 0 then (- ENOMEM, buf', [])
          else (case fill_loop filler buf' rest of
                  (r', buf'', taken) \<Rightarrow> (r', buf'', dirent # taken)))"

text \<open>
  The \<^verbatim>\<open>readdir\<close> operation. \<open>rd\<close> is the value \<^verbatim>\<open>std::random_device\<close> yields in
  this call. \<^verbatim>\<open>dirents\<close> is a reference to the object \<^verbatim>\<open>info->fh\<close> points to, so the
  shuffle changes the heap. Dereferencing a pointer to no live object is undefined:
  \<open>None\<close>.
\<close>

definition readdir ::
  "Disorderfs_config \<Rightarrow> stdlib \<Rightarrow> 32 word \<Rightarrow> 'b fuse_fill_dir_t \<Rightarrow> 'b \<Rightarrow> fuse_file_info
     \<Rightarrow> heap \<Rightarrow> (int \<times> 'b \<times> Dirents \<times> heap) option" where
  "readdir cfg L rd filler buf info h =
     (case heap_get h (fh info) of
        None \<Rightarrow> None
      | Some dirents \<Rightarrow>
          (let dirents' = (if shuffle_dirents cfg \<noteq> 0 then std_shuffle L rd dirents
                           else dirents);
               h' = h[fh info := Some dirents'];
               (r, buf', taken) = fill_loop filler buf dirents'
           in Some (r, buf', taken, h')))"

text \<open>The \<^verbatim>\<open>releasedir\<close> operation: \<^verbatim>\<open>delete\<close>, then \<^verbatim>\<open>return 0\<close>. Deleting what
  is not a live object is undefined: \<open>None\<close>.\<close>

definition releasedir :: "fuse_file_info \<Rightarrow> heap \<Rightarrow> (int \<times> heap) option" where
  "releasedir info h =
     (case heap_get h (fh info) of
        None \<Rightarrow> None
      | Some dirents \<Rightarrow> Some (0, h[fh info := None]))"

text \<open>The calls a dispatcher makes between \<^verbatim>\<open>opendir\<close> and \<^verbatim>\<open>releasedir\<close> of one
  directory session: each \<^verbatim>\<open>readdir\<close> call comes with its own random-device value,
  callback and buffer. The results of the calls are collected in order.\<close>

type_synonym 'b enumerate_call = "32 word \<times> 'b fuse_fill_dir_t \<times> 'b"

fun readdir_calls ::
  "Disorderfs_config \<Rightarrow> stdlib \<Rightarrow> 'b enumerate_call list \<Rightarrow> fuse_file_info \<Rightarrow> heap
     \<Rightarrow> ((int \<times> 'b \<times> Dirents) list \<times> heap) option" where
  "readdir_calls cfg L [] info h = Some ([], h)"
| "readdir_calls cfg L ((rd, filler, buf) # calls) info h =
     (case readdir cfg L rd filler buf info h of
        None \<Rightarrow> None
      | Some (r, buf', taken, h') \<Rightarrow>
          (case readdir_calls cfg L calls info h' of
             None \<Rightarrow> None
           | Some (outs, h'') \<Rightarrow> Some ((r, buf', taken) # outs, h'')))"

section \<open>Attribute queries\<close>

text \<open>\<^verbatim>\<open>st->st_blocks += config.pad_blocks\<close>: the \<^verbatim>\<open>int\<close> is sign-extended to the
  64-bit \<^verbatim>\<open>blkcnt_t\<close>.\<close>

definition getattr_body :: "Disorderfs_config \<Rightarrow> env \<Rightarrow> string \<Rightarrow> string \<Rightarrow> stat \<Rightarrow> int \<times> stat" where
  "getattr_body cfg E root path st =
     (case fs_lstat E (root @ path) of
        Inl e \<Rightarrow> (- e, st)
      | Inr st' \<Rightarrow> (0, st'\<lparr>st_blocks := st_blocks st' + scast (pad_blocks cfg)\<rparr>))"

definition getattr ::
  "Disorderfs_config \<Rightarrow> env \<Rightarrow> string \<Rightarrow> string \<Rightarrow> stat \<Rightarrow> thread_state
     \<Rightarrow> ((int \<times> stat) \<times> thread_state) outcome" where
  "getattr cfg E root path st t = with_Guard cfg E (getattr_body cfg E root path st) t"

definition fgetattr :: "Disorderfs_config \<Rightarrow> env \<Rightarrow> stat \<Rightarrow> fuse_file_info \<Rightarrow> int \<times> stat" where
  "fgetattr cfg E st info =
     (case fs_fstat E (fh info) of
        Inl e \<Rightarrow> (- e, st)
      | Inr st' \<Rightarrow> (0, st'\<lparr>st_blocks := st_blocks st' + scast (pad_blocks cfg)\<rparr>))"

section \<open>Notions used to state the properties\<close>

text \<open>The change time \<^verbatim>\<open>create_ctime_dirents_list\<close> pairs with an entry: what
  \<^verbatim>\<open>lstat\<close> reports for it, or \<open>INVALID\<close> when \<^verbatim>\<open>lstat\<close> fails.\<close>

definition captured_ctime :: "env \<Rightarrow> string \<Rightarrow> dirent \<Rightarrow> timespec" where
  "captured_ctime E abspath i =
     (case fs_lstat E (abspath @ fst i) of Inl e \<Rightarrow> INVALID | Inr buffer \<Rightarrow> st_ctim buffer)"

text \<open>A \<^verbatim>\<open>timespec\<close> as a pair, ordered lexicographically.\<close>

definition ctime_key :: "Ctime_Dirent_pair \<Rightarrow> int \<times> int" where
  "ctime_key a = (tv_sec (fst a), tv_nsec (fst a))"

text \<open>The callback refuses an entry: fed the entries in order, as the loop of
  \<^verbatim>\<open>readdir\<close> does, it returns non-zero for one of them.\<close>

fun filler_refuses :: "'b fuse_fill_dir_t \<Rightarrow> 'b \<Rightarrow> Dirents \<Rightarrow> bool" where
  "filler_refuses filler buf [] = False"
| "filler_refuses filler buf (dirent # rest) =
     (case filler buf (fst dirent) (zero_stat\<lparr>st_ino := snd dirent\<rparr>) 0 of
        (r, buf') \<Rightarrow> r \<noteq> 0 \<or> filler_refuses filler buf' rest)"

section \<open>Two libraries and a directory\<close>

text \<open>A library whose sorts are insertion sorts (they keep equivalent elements in their
  order) and whose shuffle rotates by the seed.\<close>

definition insertion_lib :: stdlib where
  "insertion_lib =
     \<lparr>std_sort_dirents = sort, std_sort_ctime = sort_key ctime_key,
      std_shuffle = (\<lambda>seed xs. rotate (unat seed) xs)\<rparr>"

text \<open>A library whose ctime sort leaves equivalent elements in the opposite order.\<close>

definition reversing_lib :: stdlib where
  "reversing_lib = insertion_lib\<lparr>std_sort_ctime := (\<lambda>xs. sort_key ctime_key (rev xs))\<rparr>"

text \<open>A kernel in the manner of Linux: a thread may set its effective uid to its real
  uid; everything else needs effective uid 0.\<close>

definition linux_permits :: "thread_state \<Rightarrow> syscall \<Rightarrow> bool" where
  "linux_permits t c =
     (case c of
        SYS_setresuid r e s \<Rightarrow> euid t = 0 \<or> e = ruid t
      | SYS_setresgid r e s \<Rightarrow> euid t = 0
      | SYS_setgroups gs \<Rightarrow> euid t = 0)"

text \<open>The directory \<^verbatim>\<open>/srv/tree/d\<close> holds \<open>a\<close> (inode 1, changed at 100 s), \<open>b\<close>
  (inode 2, 300 s) and \<open>c\<close> (inode 3, 200 s); the filesystem yields them as \<open>c, a, b\<close>.\<close>

definition abc_raw :: Dirents where
  "abc_raw = [(''c'', 3), (''a'', 1), (''b'', 2)]"

definition abc_stat :: "ino_t \<Rightarrow> int \<Rightarrow> stat" where
  "abc_stat ino sec = \<lparr>st_ino = ino, st_blocks = 8, st_ctim = \<lparr>tv_sec = sec, tv_nsec = 0\<rparr>\<rparr>"

definition abc_env :: env where
  "abc_env =
     \<lparr>kernel_permits = linux_permits, sysconf_NGROUPS_MAX = 65536,
      caller_groups = Inr [27, 100], context_uid = 1000, context_gid = 1000,
      fs_opendir = (\<lambda>p. if p = ''/srv/tree/d'' then Inr (abc_raw, 0) else Inl ENOENT),
      fs_lstat = (\<lambda>p. if p = ''/srv/tree/d/a'' then Inr (abc_stat 1 100)
                       else if p = ''/srv/tree/d/b'' then Inr (abc_stat 2 300)
                       else if p = ''/srv/tree/d/c'' then Inr (abc_stat 3 200)
                       else Inl ENOENT),
      fs_fstat = (\<lambda>fd. if fd = 5 then Inr (abc_stat 1 100) else Inl EBADF),
      fs_closedir = None\<rparr>"

definition root_thread :: thread_state where
  "root_thread = \<lparr>ruid = 0, euid = 0, egid = 0, groups = [], sys_trace = []\<rparr>"

text \<open>Two callbacks whose buffer is the list of entries taken so far: one takes every
  entry, the other refuses once it holds \<open>n\<close>.\<close>

definition take_all :: "Dirents fuse_fill_dir_t" where
  "take_all buf name st off = (0, buf @ [(name, st_ino st)])"

definition take_at_most :: "nat \<Rightarrow> Dirents fuse_fill_dir_t" where
  "take_at_most n buf name st off =
     (if length buf < n then (0, buf @ [(name, st_ino st)]) else (1, buf))"

definition all_flags :: Disorderfs_config where
  "all_flags = config_default\<lparr>sort_dirents := 1, shuffle_dirents := 1\<rparr>"

text \<open>The credential system calls of the guard, in the order the source issues them:
  \<^verbatim>\<open>drop_privileges\<close> and \<^verbatim>\<open>restore_privileges\<close>.\<close>

definition acquire_calls :: "env \<Rightarrow> syscall list" where
  "acquire_calls E =
     [SYS_setgroups (get_fuse_groups E),
      SYS_setresgid (- 1) (context_gid E) (- 1),
      SYS_setresuid (- 1) (context_uid E) (- 1)]"

definition release_calls :: "syscall list" where
  "release_calls =
     [SYS_setresuid (- 1) 0 (- 1), SYS_setresgid (- 1) 0 (- 1), SYS_setgroups []]"

text \<open>Multi-user mode; the thread after the guard of a caller with uid and gid 1000 and
  groups 27 and 100 was acquired, and after it was released; a kernel that refuses every
  \<^verbatim>\<open>setresgid\<close>, and the thread at the moment it aborts there.\<close>

definition multi_user_cfg :: Disorderfs_config where
  "multi_user_cfg = config_default\<lparr>multi_user := 1\<rparr>"

definition caller_thread :: thread_state where
  "caller_thread =
     \<lparr>ruid = 0, euid = 1000, egid = 1000, groups = [27, 100],
      sys_trace = [(SYS_setgroups [27, 100], 0), (SYS_setresgid (- 1) 1000 (- 1), 0),
                   (SYS_setresuid (- 1) 1000 (- 1), 0)]\<rparr>"

definition no_setgid_env :: env where
  "no_setgid_env =
     abc_env\<lparr>kernel_permits :=
       (\<lambda>t c. case c of SYS_setresgid r e s \<Rightarrow> False | _ \<Rightarrow> True)\<rparr>"

definition restored_thread :: thread_state where
  "restored_thread =
     root_thread\<lparr>sys_trace := sys_trace caller_thread @
        [(SYS_setresuid (- 1) 0 (- 1), 0), (SYS_setresgid (- 1) 0 (- 1), 0),
         (SYS_setgroups [], 0)]\<rparr>"

definition setegid_refused_thread :: thread_state where
  "setegid_refused_thread =
     root_thread\<lparr>groups := [27, 100],
       sys_trace := [(SYS_setgroups [27, 100], 0), (SYS_setresgid (- 1) 1000 (- 1), - 1)]\<rparr>"

text \<open>What a successful \<^verbatim>\<open>opendir\<close> on an empty heap leaves behind when no
  \<^verbatim>\<open>lstat\<close> was needed, and three more configurations: no reordering at all,
  alphabetic sort alone, alphabetic sort with the (default) reversal.\<close>

definition opened :: "Dirents \<Rightarrow> opendir_result" where
  "opened ds =
     \<lparr>retval = 0, info_out = \<lparr>fh = 0\<rparr>, heap_out = [Some ds], cerr_out = [], lstat_log = []\<rparr>"

definition no_reorder_cfg :: Disorderfs_config where
  "no_reorder_cfg = config_default\<lparr>reverse_dirents := 0\<rparr>"

definition sort_only_cfg :: Disorderfs_config where
  "sort_only_cfg = config_default\<lparr>sort_dirents := 1, reverse_dirents := 0\<rparr>"

definition sort_reverse_cfg :: Disorderfs_config where
  "sort_reverse_cfg = config_default\<lparr>sort_dirents := 1\<rparr>"

text \<open>The orders the specification names: a stable sort by name, and a stable sort of
  the keyed sequence by change time.\<close>

definition stable_sort_by_name :: "Dirents \<Rightarrow> Dirents" where
  "stable_sort_by_name dirents = sort_key fst dirents"

definition stable_sort_by_ctime :: "Ctime_Dirent_pair list \<Rightarrow> Ctime_Dirent_pair list" where
  "stable_sort_by_ctime keyed = sort_key ctime_key keyed"

text \<open>More directories and configurations. In \<open>twin_env\<close> the file \<open>a\<close> was removed
  and created again while the directory was read, so \<^verbatim>\<open>readdir\<close> yields the name twice,
  with inodes 5 and 3. In \<open>tie_env\<close> the entries \<open>c\<close> and \<open>a\<close> have the same change
  time. In \<open>raced_env\<close> the entry \<open>a\<close> disappears before \<^verbatim>\<open>lstat\<close> reaches it.
  \<open>ctime_only_cfg\<close> is \<^verbatim>\<open>--sort-by-ctime=yes\<close> alone; \<open>ctime_cfg\<close> adds
  \<^verbatim>\<open>--sort-dirents=yes\<close>; \<open>ctime_forward_cfg\<close> also \<^verbatim>\<open>--reverse-dirents=no\<close>;
  \<open>ctime_shuffle_cfg\<close> also \<^verbatim>\<open>--shuffle-dirents=yes\<close>.\<close>

definition twin_env :: env where
  "twin_env = abc_env\<lparr>fs_opendir :=
     (\<lambda>p. if p = ''/srv/tree/d'' then Inr ([(''a'', 5), (''a'', 3)], 0) else Inl ENOENT)\<rparr>"

definition ctime_only_cfg :: Disorderfs_config where
  "ctime_only_cfg = config_default\<lparr>sort_by_ctime := 1\<rparr>"

definition ctime_cfg :: Disorderfs_config where
  "ctime_cfg = config_default\<lparr>sort_dirents := 1, sort_by_ctime := 1\<rparr>"

definition ctime_forward_cfg :: Disorderfs_config where
  "ctime_forward_cfg = ctime_cfg\<lparr>reverse_dirents := 0\<rparr>"

definition ctime_shuffle_cfg :: Disorderfs_config where
  "ctime_shuffle_cfg = ctime_forward_cfg\<lparr>shuffle_dirents := 1\<rparr>"

definition tie_env :: env where
  "tie_env = abc_env\<lparr>fs_lstat :=
     (\<lambda>p. if p = ''/srv/tree/d/c'' then Inr (abc_stat 3 100) else fs_lstat abc_env p)\<rparr>"

definition raced_env :: env where
  "raced_env = abc_env\<lparr>fs_lstat :=
     (\<lambda>p. if p = ''/srv/tree/d/a'' then Inl ENOENT else fs_lstat abc_env p)\<rparr>"

definition abc_paths :: "string list" where
  "abc_paths = [''/srv/tree/d/c'', ''/srv/tree/d/a'', ''/srv/tree/d/b'']"

definition opened_ctime :: "Dirents \<Rightarrow> opendir_result" where
  "opened_ctime ds = (opened ds)\<lparr>lstat_log := abc_paths\<rparr>"

definition seconds :: "int \<Rightarrow> timespec" where
  "seconds n = \<lparr>tv_sec = n, tv_nsec = 0\<rparr>"

section \<open>Notions used to state what an enumeration delivers\<close>

text \<open>The buffer after the callback has taken every entry of a sequence, in order, each
  with the \<^verbatim>\<open>stat\<close> the loop of \<^verbatim>\<open>readdir\<close> builds for it (all zero but \<^verbatim>\<open>st_ino\<close>) and
  offset 0.\<close>

definition fed_buffer :: "'b fuse_fill_dir_t \<Rightarrow> 'b \<Rightarrow> Dirents \<Rightarrow> 'b" where
  "fed_buffer filler buf ds =
     fold (\<lambda>dirent b. snd (filler b (fst dirent) (zero_stat\<lparr>st_ino := snd dirent\<rparr>) 0)) ds buf"

text \<open>
  What one \<^verbatim>\<open>readdir\<close> call of a session hands over, given the entries \<open>raw\<close> captured at
  open time: there is a sequence \<open>fed\<close> with the multiset of \<open>raw\<close> which the loop walks.
  If the callback refuses none of its entries the call returns 0, the callback has taken
  exactly \<open>fed\<close>, and the buffer is the one these entries leave. If it refuses one, the
  call returns \<^verbatim>\<open>-ENOMEM\<close>, the callback has taken the entries before the first one it
  refused, that entry \<open>d\<close> was offered and declined, and the entries after it were never
  offered.
\<close>

definition delivers :: "Dirents \<Rightarrow> 'b enumerate_call \<Rightarrow> int \<times> 'b \<times> Dirents \<Rightarrow> bool" where
  "delivers raw call out =
     (case call of (rd, filler, buf) \<Rightarrow>
      case out of (r, buf', taken) \<Rightarrow>
        \<exists>fed. mset fed = mset raw \<and>
          (if filler_refuses filler buf fed
           then r = - ENOMEM \<and>
                (\<exists>d rest. fed = taken @ d # rest \<and> \<not> filler_refuses filler buf taken \<and>
                   fst (filler (fed_buffer filler buf taken) (fst d)
                          (zero_stat\<lparr>st_ino := snd d\<rparr>) 0) \<noteq> 0 \<and>
                   buf' = snd (filler (fed_buffer filler buf taken) (fst d)
                                 (zero_stat\<lparr>st_ino := snd d\<rparr>) 0))
           else r = 0 \<and> taken = fed \<and> buf' = fed_buffer filler buf fed))"

text \<open>The default configuration with \<open>shuffle_dirents\<close> set as well, and a directory of
  thirteen entries.\<close>

definition shuffle_only_cfg :: Disorderfs_config where
  "shuffle_only_cfg = config_default\<lparr>shuffle_dirents := 1\<rparr>"

definition thirteen :: Dirents where
  "thirteen =
     [(''a'', 1), (''b'', 2), (''c'', 3), (''d'', 4), (''e'', 5), (''f'', 6), (''g'', 7),
      (''h'', 8), (''i'', 9), (''j'', 10), (''k'', 11), (''l'', 12), (''m'', 13)]"

section \<open>The library contracts\<close>

lemma timespec_less_iff:
  "timespec_less a b \<longleftrightarrow> (tv_sec a, tv_nsec a) < (tv_sec b, tv_nsec b)"
  by (auto simp: timespec_less_def)

lemma not_compare_ctime_dirents:
  "\<not> compare_ctime_dirents b a \<longleftrightarrow> ctime_key a \<le> ctime_key b"
  by (auto simp: compare_ctime_dirents_def timespec_less_iff ctime_key_def not_less)

lemma std_sort_post_ctime:
  "std_sort_post compare_ctime_dirents xs ys \<longleftrightarrow> mset ys = mset xs \<and> sorted (map ctime_key ys)"
  by (simp add: std_sort_post_def not_compare_ctime_dirents sorted_map)

lemma std_sort_post_less:
  "std_sort_post (<) xs ys \<longleftrightarrow> ys = sort xs" for xs :: "'a::linorder list"
proof -
  have "sorted_wrt (\<lambda>a b. \<not> b < a) ys = sorted ys"
    by (simp add: not_less)
  then show ?thesis
    unfolding std_sort_post_def using properties_for_sort[of ys xs] by auto
qed

lemma mset_rotate: "mset (rotate n xs) = mset xs"
proof (induction n)
  case 0
  then show ?case by simp
next
  case (Suc n)
  have "mset (rotate1 ys) = mset ys" for ys :: "'a list"
    by (cases ys) simp_all
  with Suc show ?case by simp
qed

lemma conforming_insertion_lib: "conforming insertion_lib"
  by (simp add: conforming_def insertion_lib_def std_sort_post_less std_sort_post_ctime mset_rotate)

lemma conforming_reversing_lib: "conforming reversing_lib"
  by (simp add: conforming_def reversing_lib_def insertion_lib_def std_sort_post_less std_sort_post_ctime mset_rotate)

lemma fold_update_prefix:
  "n \<le> length ds \<Longrightarrow> fold (\<lambda>i ds. ds[i := f i]) [0..<n] ds = map f [0..<n] @ drop n ds"
proof (induction n)
  case 0
  then show ?case by simp
next
  case (Suc n)
  then have "fold (\<lambda>i ds. ds[i := f i]) [0..<Suc n] ds = (map f [0..<n] @ drop n ds)[n := f n]"
    by simp
  also have "\<dots> = map f [0..<n] @ (drop n ds)[0 := f n]"
    by (simp add: list_update_append)
  also have "(drop n ds)[0 := f n] = f n # drop (Suc n) ds"
    using Suc.prems by (simp flip: Cons_nth_drop_Suc)
  finally show ?case by simp
qed

lemma overwrite_dirents_map:
  "length dirents = length sorted_interim \<Longrightarrow>
     overwrite_dirents dirents sorted_interim = map snd sorted_interim"
  unfolding overwrite_dirents_def
  by (simp add: fold_update_prefix[where f = "\<lambda>i. snd (sorted_interim ! i)"] map_nth
      flip: map_map[unfolded comp_def] )

section \<open>The snapshot built by \<^verbatim>\<open>opendir\<close>\<close>

lemma result_ctime_loop:
  "result (ctime_loop E p ds e0) = map (\<lambda>i. (captured_ctime E p i, i)) ds"
  by (induction ds arbitrary: e0) (auto simp: captured_ctime_def Let_def split: sum.splits)

lemma lstat_calls_ctime_loop:
  "lstat_calls (ctime_loop E p ds e0) = map (\<lambda>i. p @ fst i) ds"
  by (induction ds arbitrary: e0) (auto simp: Let_def split: sum.splits)

lemma cerr_ctime_loop:
  "cerr (ctime_loop E p ds e0) =
     concat (map (\<lambda>i. case fs_lstat E (p @ fst i) of
                          Inl e \<Rightarrow> lstat_warning (p @ fst i) | Inr buffer \<Rightarrow> []) ds)"
  by (induction ds arbitrary: e0) (auto simp: Let_def split: sum.splits)

lemma errno_ctime_loop:
  "errno (ctime_loop E p ds e0) =
     fold (\<lambda>i e. case fs_lstat E (p @ fst i) of Inl e' \<Rightarrow> e' | Inr buffer \<Rightarrow> e) ds e0"
  by (induction ds arbitrary: e0) (auto simp: Let_def split: sum.splits)

lemma errno_ctime_loop_nonzero:
  "i \<in> set ds \<Longrightarrow> fs_lstat E (p @ fst i) = Inl e \<Longrightarrow>
   \<forall>j\<in>set ds. \<forall>e'. fs_lstat E (p @ fst j) = Inl e' \<longrightarrow> e' \<noteq> 0 \<Longrightarrow>
   errno (ctime_loop E p ds e0) \<noteq> 0"
proof (induction ds arbitrary: e0 rule: rev_induct)
  case Nil
  then show ?case by simp
next
  case (snoc d ds)
  show ?case
  proof (cases "fs_lstat E (p @ fst d)")
    case (Inl e')
    with snoc.prems(3) have "e' \<noteq> 0" by simp
    with Inl show ?thesis by (simp add: errno_ctime_loop)
  next
    case (Inr buffer)
    with snoc.prems have "i \<in> set ds" by auto
    with snoc.IH[of e0] snoc.prems have "errno (ctime_loop E p ds e0) \<noteq> 0" by simp
    with Inr show ?thesis by (simp add: errno_ctime_loop)
  qed
qed

lemma length_std_sort_ctime:
  "conforming L \<Longrightarrow> length (std_sort_ctime L xs) = length xs"
  by (metis conforming_def std_sort_post_def mset_eq_length)

lemma sort_step_ctime:
  assumes "conforming L" "sort_dirents cfg \<noteq> 0" "sort_by_ctime cfg \<noteq> 0"
  shows "fst (sort_step cfg L E abspath raw e0) =
           map snd (std_sort_ctime L (map (\<lambda>i. (captured_ctime E (with_trailing_slash abspath) i, i)) raw))"
    and "lstat_calls (snd (sort_step cfg L E abspath raw e0)) = map (\<lambda>i. with_trailing_slash abspath @ fst i) raw"
  using assms
  by (simp_all add: sort_step_def create_ctime_dirents_list_def Let_def result_ctime_loop
      lstat_calls_ctime_loop overwrite_dirents_map length_std_sort_ctime with_trailing_slash_def)

lemma sort_step_alpha:
  assumes "conforming L" "sort_dirents cfg \<noteq> 0" "sort_by_ctime cfg = 0"
  shows "sort_step cfg L E abspath raw e0 =
           (sort raw, \<lparr>result = [], lstat_calls = [], cerr = [], errno = e0\<rparr>)"
  using assms by (simp add: sort_step_def conforming_def std_sort_post_less)

lemma sort_step_none:
  "sort_dirents cfg = 0 \<Longrightarrow>
     sort_step cfg L E abspath raw e0 = (raw, \<lparr>result = [], lstat_calls = [], cerr = [], errno = e0\<rparr>)"
  by (simp add: sort_step_def)

lemma mset_sort_step:
  assumes "conforming L"
  shows "mset (fst (sort_step cfg L E abspath raw e0)) = mset raw"
proof (cases "sort_dirents cfg = 0")
  case True
  then show ?thesis by (simp add: sort_step_none)
next
  case False
  show ?thesis
  proof (cases "sort_by_ctime cfg = 0")
    case True
    with False assms show ?thesis by (simp add: sort_step_alpha)
  next
    case nz: False
    let ?keyed = "map (\<lambda>i. (captured_ctime E (with_trailing_slash abspath) i, i)) raw"
    from assms have "mset (std_sort_ctime L ?keyed) = mset ?keyed"
      by (simp add: conforming_def std_sort_post_def)
    then have "image_mset snd (mset (std_sort_ctime L ?keyed)) = image_mset snd (mset ?keyed)"
      by (rule arg_cong)
    then have "mset (map snd (std_sort_ctime L ?keyed)) = mset (map snd ?keyed)"
      by (simp only: mset_map)
    also have "map snd ?keyed = raw"
      by (simp add: comp_def)
    finally show ?thesis
      using False nz assms by (simp add: sort_step_ctime)
  qed
qed

lemma mset_reverse_step: "mset (reverse_step cfg ds) = mset ds"
  by (simp add: reverse_step_def)

lemma opendir_body_success:
  assumes "fs_opendir E (root @ path) = Inr (raw, e)"
    and "retval (opendir_body cfg L E root path info h) = 0"
  shows "opendir_body cfg L E root path info h =
           \<lparr>retval = 0, info_out = info\<lparr>fh := length h\<rparr>,
            heap_out = h @ [Some (reverse_step cfg (fst (sort_step cfg L E (root @ path) raw 0)))],
            cerr_out = cerr (snd (sort_step cfg L E (root @ path) raw 0)),
            lstat_log = lstat_calls (snd (sort_step cfg L E (root @ path) raw 0))\<rparr>"
  using assms
  by (auto simp: opendir_body_def Let_def heap_new_def split: if_splits prod.splits option.splits)

lemma snapshot_opendir_body:
  assumes "fs_opendir E (root @ path) = Inr (raw, e)"
    and "res = opendir_body cfg L E root path info h"
    and "retval res = 0"
  shows "snapshot (info_out res) (heap_out res) =
           Some (reverse_step cfg (fst (sort_step cfg L E (root @ path) raw 0)))"
  using opendir_body_success[OF assms(1) assms(3)[unfolded assms(2)]] assms(2)
  by (simp add: snapshot_def heap_get_def)

lemma with_Guard_Returned:
  "with_Guard cfg E r t = Returned (r', t') \<Longrightarrow> r' = r"
  by (auto simp: with_Guard_def split: outcome.splits)

lemma opendir_Returned:
  "opendir cfg L E root path info h t = Returned (res, t') \<Longrightarrow>
     res = opendir_body cfg L E root path info h"
  by (simp add: opendir_def with_Guard_Returned)

section \<open>Enumerating a snapshot\<close>

lemma fill_loop_cases:
  "fill_loop filler buf ds = (r, b, taken) \<Longrightarrow>
     (\<not> filler_refuses filler buf ds \<and> r = 0 \<and> taken = ds) \<or>
     (filler_refuses filler buf ds \<and> r = - ENOMEM \<and> (\<exists>d rest. ds = taken @ d # rest))"
proof (induction ds arbitrary: buf r b taken)
  case Nil
  then show ?case by simp
next
  case (Cons d ds)
  obtain r1 b1 where f: "filler buf (fst d) (zero_stat\<lparr>st_ino := snd d\<rparr>) 0 = (r1, b1)"
    by (cases "filler buf (fst d) (zero_stat\<lparr>st_ino := snd d\<rparr>) 0")
  show ?case
  proof (cases "r1 = 0")
    case False
    with Cons.prems f show ?thesis by auto
  next
    case True
    obtain r2 b2 tk where l: "fill_loop filler b1 ds = (r2, b2, tk)"
      by (cases "fill_loop filler b1 ds")
    from Cons.IH[OF l] Cons.prems f True l show ?thesis
      by (auto simp: Cons_eq_append_conv)
  qed
qed

lemma heap_get_update:
  "heap_get h p = Some ds \<Longrightarrow> heap_get (h[p := v]) p = v"
  by (auto simp: heap_get_def split: if_splits)

lemma readdir_step:
  fixes cfg :: Disorderfs_config and L :: stdlib and rd :: "32 word" and ds :: Dirents
  assumes "conforming L" and "snapshot info h = Some ds"
  defines "ds' \<equiv> (if shuffle_dirents cfg \<noteq> 0 then std_shuffle L rd ds else ds)"
  shows "\<exists>r b taken h'. readdir cfg L rd filler buf info h = Some (r, b, taken, h') \<and>
           snapshot info h' = Some ds' \<and> mset ds' = mset ds \<and> length h' = length h \<and>
           ((\<not> filler_refuses filler buf ds' \<and> r = 0 \<and> taken = ds') \<or>
            (filler_refuses filler buf ds' \<and> r = - ENOMEM \<and> (\<exists>d rest. ds' = taken @ d # rest)))"
proof -
  obtain r b taken where l: "fill_loop filler buf ds' = (r, b, taken)"
    by (cases "fill_loop filler buf ds'")
  from assms(1) have m: "mset ds' = mset ds"
    by (simp add: ds'_def conforming_def)
  from assms(2) have g: "heap_get h (fh info) = Some ds"
    by (simp add: snapshot_def)
  have "readdir cfg L rd filler buf info h = Some (r, b, taken, h[fh info := Some ds'])"
    using l g by (simp add: readdir_def ds'_def Let_def)
  moreover have "snapshot info (h[fh info := Some ds']) = Some ds'"
    using g by (simp add: snapshot_def heap_get_update)
  ultimately show ?thesis
    using fill_loop_cases[OF l] m by auto
qed

lemma releasedir_live:
  "snapshot info h = Some ds \<Longrightarrow>
     releasedir info h = Some (0, h[fh info := None]) \<and> snapshot info (h[fh info := None]) = None"
  by (simp add: releasedir_def snapshot_def heap_get_update)

lemma readdir_calls_invariant:
  assumes "conforming L" and "snapshot info h = Some ds"
  shows "\<exists>outs h' ds'. readdir_calls cfg L calls info h = Some (outs, h') \<and>
           length outs = length calls \<and>
           snapshot info h' = Some ds' \<and> mset ds' = mset ds \<and>
           (\<forall>(r, b, taken)\<in>set outs.
              (r = 0 \<longrightarrow> mset taken = mset ds) \<and> mset taken \<subseteq># mset ds \<and>
              (r = 0 \<or> r = - ENOMEM))"
  using assms(2)
proof (induction calls arbitrary: h ds)
  case Nil
  then show ?case by simp
next
  case (Cons c calls)
  obtain rd filler buf where c: "c = (rd, filler, buf)"
    by (cases c)
  from readdir_step[OF assms(1) Cons.prems, of cfg rd filler buf]
  obtain r b taken h1 ds1 where
    s: "readdir cfg L rd filler buf info h = Some (r, b, taken, h1)"
       "snapshot info h1 = Some ds1" "mset ds1 = mset ds"
       "(r = 0 \<and> taken = ds1) \<or> (r = - ENOMEM \<and> (\<exists>d rest. ds1 = taken @ d # rest))"
    by blast
  from Cons.IH[OF s(2)] obtain outs h' ds' where
    t: "readdir_calls cfg L calls info h1 = Some (outs, h')" "length outs = length calls"
       "snapshot info h' = Some ds'" "mset ds' = mset ds1"
       "\<forall>(r, b, taken)\<in>set outs.
              (r = 0 \<longrightarrow> mset taken = mset ds1) \<and> mset taken \<subseteq># mset ds1 \<and>
              (r = 0 \<or> r = - ENOMEM)"
    by blast
  have sub: "mset taken \<subseteq># mset ds"
    using s(3,4) by (metis mset_subset_eq_add_left mset_append subset_mset.order_refl)
  have "readdir_calls cfg L (c # calls) info h = Some ((r, b, taken) # outs, h')"
    using c s(1) t(1) by simp
  moreover have "\<forall>(r, b, taken)\<in>set ((r, b, taken) # outs).
              (r = 0 \<longrightarrow> mset taken = mset ds) \<and> mset taken \<subseteq># mset ds \<and>
              (r = 0 \<or> r = - ENOMEM)"
    using t(5) s(3,4) sub by (auto simp: ENOMEM_def)
  ultimately show ?case
    using t(2,3,4) s(3) by auto
qed

text \<open>The buffer and the entries of a call, in full: with no refusal, and with one.\<close>

lemma fill_loop_buffer:
  "\<not> filler_refuses filler buf ds \<Longrightarrow>
     fill_loop filler buf ds = (0, fed_buffer filler buf ds, ds)"
proof (induction ds arbitrary: buf)
  case Nil
  then show ?case by (simp add: fed_buffer_def)
next
  case (Cons d ds)
  obtain r1 b1 where f: "filler buf (fst d) (zero_stat\<lparr>st_ino := snd d\<rparr>) 0 = (r1, b1)"
    by (cases "filler buf (fst d) (zero_stat\<lparr>st_ino := snd d\<rparr>) 0")
  with Cons.prems have "r1 = 0" and "\<not> filler_refuses filler b1 ds"
    by auto
  with Cons.IH[of b1] f show ?case
    by (simp add: fed_buffer_def)
qed

lemma fill_loop_refused:
  "filler_refuses filler buf ds \<Longrightarrow> fill_loop filler buf ds = (r, b, taken) \<Longrightarrow>
     r = - ENOMEM \<and>
     (\<exists>d rest. ds = taken @ d # rest \<and> \<not> filler_refuses filler buf taken \<and>
        fst (filler (fed_buffer filler buf taken) (fst d)
               (zero_stat\<lparr>st_ino := snd d\<rparr>) 0) \<noteq> 0 \<and>
        b = snd (filler (fed_buffer filler buf taken) (fst d)
                   (zero_stat\<lparr>st_ino := snd d\<rparr>) 0))"
proof (induction ds arbitrary: buf r b taken)
  case Nil
  then show ?case by simp
next
  case (Cons d ds)
  obtain r1 b1 where f: "filler buf (fst d) (zero_stat\<lparr>st_ino := snd d\<rparr>) 0 = (r1, b1)"
    by (cases "filler buf (fst d) (zero_stat\<lparr>st_ino := snd d\<rparr>) 0")
  show ?case
  proof (cases "r1 = 0")
    case False
    with Cons.prems(2) f have "r = - ENOMEM" "b = b1" "taken = []"
      by auto
    with f False show ?thesis
      by (auto simp: fed_buffer_def)
  next
    case True
    obtain r2 b2 tk where l: "fill_loop filler b1 ds = (r2, b2, tk)"
      by (cases "fill_loop filler b1 ds")
    from Cons.prems(1) f True have ref: "filler_refuses filler b1 ds"
      by simp
    from Cons.prems(2) f True l have e: "r = r2" "b = b2" "taken = d # tk"
      by auto
    from Cons.IH[OF ref l] obtain d' rest where
      i: "r2 = - ENOMEM" "ds = tk @ d' # rest" "\<not> filler_refuses filler b1 tk"
         "fst (filler (fed_buffer filler b1 tk) (fst d')
                (zero_stat\<lparr>st_ino := snd d'\<rparr>) 0) \<noteq> 0"
         "b2 = snd (filler (fed_buffer filler b1 tk) (fst d')
                      (zero_stat\<lparr>st_ino := snd d'\<rparr>) 0)"
      by blast
    have fb: "fed_buffer filler buf (d # tk) = fed_buffer filler b1 tk"
      using f by (simp add: fed_buffer_def)
    have nr: "\<not> filler_refuses filler buf (d # tk)"
      using f True i(3) by simp
    from e i fb nr show ?thesis
      by (intro conjI exI[of _ d'] exI[of _ rest]) simp_all
  qed
qed

lemma readdir_fed:
  fixes cfg :: Disorderfs_config and L :: stdlib and rd :: "32 word" and ds :: Dirents
  assumes "conforming L" and "snapshot info h = Some ds"
  defines "fed \<equiv> (if shuffle_dirents cfg \<noteq> 0 then std_shuffle L rd ds else ds)"
  shows "\<exists>r b taken h'. readdir cfg L rd filler buf info h = Some (r, b, taken, h') \<and>
           snapshot info h' = Some fed \<and> mset fed = mset ds \<and>
           (\<not> filler_refuses filler buf fed \<longrightarrow>
              r = 0 \<and> taken = fed \<and> b = fed_buffer filler buf fed) \<and>
           (filler_refuses filler buf fed \<longrightarrow>
              r = - ENOMEM \<and>
              (\<exists>d rest. fed = taken @ d # rest \<and> \<not> filler_refuses filler buf taken \<and>
                 fst (filler (fed_buffer filler buf taken) (fst d)
                        (zero_stat\<lparr>st_ino := snd d\<rparr>) 0) \<noteq> 0 \<and>
                 b = snd (filler (fed_buffer filler buf taken) (fst d)
                            (zero_stat\<lparr>st_ino := snd d\<rparr>) 0)))"
proof -
  obtain r b taken where l: "fill_loop filler buf fed = (r, b, taken)"
    by (cases "fill_loop filler buf fed")
  from assms(1) have m: "mset fed = mset ds"
    by (simp add: fed_def conforming_def)
  from assms(2) have g: "heap_get h (fh info) = Some ds"
    by (simp add: snapshot_def)
  have "readdir cfg L rd filler buf info h = Some (r, b, taken, h[fh info := Some fed])"
    using l g by (simp add: readdir_def fed_def Let_def)
  moreover have "snapshot info (h[fh info := Some fed]) = Some fed"
    using g by (simp add: snapshot_def heap_get_update)
  moreover have "\<not> filler_refuses filler buf fed \<longrightarrow>
      r = 0 \<and> taken = fed \<and> b = fed_buffer filler buf fed"
    using l fill_loop_buffer[of filler buf fed] by auto
  moreover have "filler_refuses filler buf fed \<longrightarrow>
      r = - ENOMEM \<and>
      (\<exists>d rest. fed = taken @ d # rest \<and> \<not> filler_refuses filler buf taken \<and>
         fst (filler (fed_buffer filler buf taken) (fst d)
                (zero_stat\<lparr>st_ino := snd d\<rparr>) 0) \<noteq> 0 \<and>
         b = snd (filler (fed_buffer filler buf taken) (fst d)
                    (zero_stat\<lparr>st_ino := snd d\<rparr>) 0))"
    using fill_loop_refused[OF _ l] by blast
  ultimately show ?thesis
    using m by blast
qed

lemma readdir_shuffle_fed:
  assumes "conforming L" and "shuffle_dirents cfg \<noteq> 0" and "snapshot info h = Some ds"
  shows "\<exists>r b taken h'. readdir cfg L rd filler buf info h = Some (r, b, taken, h') \<and>
           snapshot info h' = Some (std_shuffle L rd ds) \<and>
           mset (std_shuffle L rd ds) = mset ds \<and>
           (\<not> filler_refuses filler buf (std_shuffle L rd ds) \<longrightarrow>
              r = 0 \<and> taken = std_shuffle L rd ds \<and>
              b = fed_buffer filler buf (std_shuffle L rd ds))"
  using readdir_fed[OF assms(1,3), of cfg rd filler buf] assms(2) by auto

lemma readdir_no_shuffle_fed:
  assumes "shuffle_dirents cfg = 0" and "snapshot info h = Some ds"
  shows "\<exists>r b taken. readdir cfg L rd filler buf info h = Some (r, b, taken, h) \<and>
           (\<not> filler_refuses filler buf ds \<longrightarrow>
              r = 0 \<and> taken = ds \<and> b = fed_buffer filler buf ds)"
proof -
  obtain r b taken where l: "fill_loop filler buf ds = (r, b, taken)"
    by (cases "fill_loop filler buf ds")
  from assms(2) have g: "heap_get h (fh info) = Some ds"
    by (simp add: snapshot_def)
  then have "h ! fh info = Some ds"
    by (auto simp: heap_get_def split: if_splits)
  then have "h[fh info := Some ds] = h"
    by (metis list_update_id)
  then have "readdir cfg L rd filler buf info h = Some (r, b, taken, h)"
    using l g assms(1) by (simp add: readdir_def Let_def)
  with fill_loop_buffer[of filler buf ds] l show ?thesis
    by auto
qed

lemma readdir_calls_deliver:
  assumes "conforming L" and "snapshot info h = Some ds" and "mset ds = mset raw"
  shows "\<exists>outs h' ds'. readdir_calls cfg L calls info h = Some (outs, h') \<and>
           list_all2 (delivers raw) calls outs \<and>
           snapshot info h' = Some ds' \<and> mset ds' = mset raw"
  using assms(2,3)
proof (induction calls arbitrary: h ds)
  case Nil
  then show ?case by simp
next
  case (Cons c calls)
  obtain rd filler buf where c: "c = (rd, filler, buf)"
    by (cases c)
  let ?fed = "if shuffle_dirents cfg \<noteq> 0 then std_shuffle L rd ds else ds"
  from readdir_fed[OF assms(1) Cons.prems(1), of cfg rd filler buf]
  obtain r b taken h1 where
    s: "readdir cfg L rd filler buf info h = Some (r, b, taken, h1)"
       "snapshot info h1 = Some ?fed" "mset ?fed = mset ds"
       "\<not> filler_refuses filler buf ?fed \<longrightarrow>
              r = 0 \<and> taken = ?fed \<and> b = fed_buffer filler buf ?fed"
       "filler_refuses filler buf ?fed \<longrightarrow>
              r = - ENOMEM \<and>
              (\<exists>d rest. ?fed = taken @ d # rest \<and> \<not> filler_refuses filler buf taken \<and>
                 fst (filler (fed_buffer filler buf taken) (fst d)
                        (zero_stat\<lparr>st_ino := snd d\<rparr>) 0) \<noteq> 0 \<and>
                 b = snd (filler (fed_buffer filler buf taken) (fst d)
                            (zero_stat\<lparr>st_ino := snd d\<rparr>) 0))"
    by blast
  from s(3) Cons.prems(2) have m: "mset ?fed = mset raw"
    by simp
  from Cons.IH[OF s(2) m] obtain outs h' ds' where
    t: "readdir_calls cfg L calls info h1 = Some (outs, h')"
       "list_all2 (delivers raw) calls outs"
       "snapshot info h' = Some ds'" "mset ds' = mset raw"
    by blast
  have d: "delivers raw c (r, b, taken)"
    unfolding delivers_def c using m s(4,5) by (auto intro!: exI[of _ ?fed])
  have "readdir_calls cfg L (c # calls) info h = Some ((r, b, taken) # outs, h')"
    using c s(1) t(1) by simp
  with d t(2,3,4) show ?case
    by simp
qed

section \<open>The privilege separation guard: lemmas\<close>

lemma do_syscall_cases:
  "do_syscall E c t = (r, t') \<Longrightarrow>
     (kernel_permits E t c \<and> r = 0 \<and> t' = (apply_syscall c t)\<lparr>sys_trace := sys_trace t @ [(c, 0)]\<rparr>) \<or>
     (\<not> kernel_permits E t c \<and> r = - 1 \<and> t' = t\<lparr>sys_trace := sys_trace t @ [(c, - 1)]\<rparr>)"
  by (auto simp: do_syscall_def split: if_splits)

lemma sys_trace_apply_syscall [simp]: "sys_trace (apply_syscall c t) = sys_trace t"
  by (cases c) simp_all

lemma ruid_apply_syscall_keep [simp]:
  "ruid (apply_syscall (SYS_setresuid (- 1) e s) t) = ruid t"
  "ruid (apply_syscall (SYS_setresgid r e s) t) = ruid t"
  "ruid (apply_syscall (SYS_setgroups gs) t) = ruid t"
  by simp_all

lemma get_fuse_groups_resolved:
  assumes "caller_groups E = Inr gs"
    and "int (length gs) \<le> (if sysconf_NGROUPS_MAX E < 0 then 65536 else sysconf_NGROUPS_MAX E)"
  shows "get_fuse_groups E = gs"
  using assms by (auto simp: get_fuse_groups_def fuse_getgroups_def Let_def)

lemma get_fuse_groups_failed:
  "caller_groups E = Inl r \<Longrightarrow> r < 0 \<Longrightarrow> get_fuse_groups E = []"
  by (simp add: get_fuse_groups_def fuse_getgroups_def Let_def)

lemma drop_privileges_Returned:
  assumes "drop_privileges E t = Returned t'"
  shows "sys_trace t' = sys_trace t @ map (\<lambda>c. (c, 0)) (acquire_calls E)"
    and "t' = (fold apply_syscall (acquire_calls E) t)\<lparr>sys_trace := sys_trace t'\<rparr>"
  using assms
  by (auto simp: drop_privileges_def thread_setgroups_def thread_setegid_def thread_seteuid_def
      do_syscall_def perror_and_die_def acquire_calls_def Let_def split: if_splits)

lemma drop_privileges_Aborted:
  assumes "drop_privileges E t = Aborted m t'"
  shows "sys_trace t' = sys_trace t @ [(acquire_calls E ! 0, - 1)] \<or>
         sys_trace t' = sys_trace t @ [(acquire_calls E ! 0, 0), (acquire_calls E ! 1, - 1)] \<or>
         sys_trace t' = sys_trace t @ [(acquire_calls E ! 0, 0), (acquire_calls E ! 1, 0),
                                       (acquire_calls E ! 2, - 1)]"
  using assms
  by (auto simp: drop_privileges_def thread_setgroups_def thread_setegid_def thread_seteuid_def
      do_syscall_def perror_and_die_def acquire_calls_def Let_def split: if_splits)

lemma restore_privileges_Returned:
  assumes "restore_privileges E t = Returned t'"
  shows "sys_trace t' = sys_trace t @ map (\<lambda>c. (c, 0)) release_calls"
    and "t' = (fold apply_syscall release_calls t)\<lparr>sys_trace := sys_trace t'\<rparr>"
  using assms
  by (auto simp: restore_privileges_def thread_setgroups_def thread_setegid_def thread_seteuid_def
      do_syscall_def perror_and_die_def release_calls_def Let_def split: if_splits)

lemma restore_privileges_Aborted:
  assumes "restore_privileges E t = Aborted m t'"
  shows "sys_trace t' = sys_trace t @ [(release_calls ! 0, - 1)] \<or>
         sys_trace t' = sys_trace t @ [(release_calls ! 0, 0), (release_calls ! 1, - 1)] \<or>
         sys_trace t' = sys_trace t @ [(release_calls ! 0, 0), (release_calls ! 1, 0),
                                       (release_calls ! 2, - 1)]"
  using assms
  by (auto simp: restore_privileges_def thread_setgroups_def thread_setegid_def thread_seteuid_def
      do_syscall_def perror_and_die_def release_calls_def Let_def split: if_splits)

lemma failed_call_last:
  assumes "tr' = tr @ [(c0, - 1)] \<or> tr' = tr @ [(c0, 0), (c1, - 1)] \<or>
           tr' = tr @ [(c0, 0), (c1, 0), (c2, - 1 :: int)]"
  shows "\<exists>cs c. tr' = tr @ map (\<lambda>c. (c, 0)) cs @ [(c, - 1)]"
proof -
  from assms consider "tr' = tr @ map (\<lambda>c. (c, 0)) [] @ [(c0, - 1)]"
    | "tr' = tr @ map (\<lambda>c. (c, 0)) [c0] @ [(c1, - 1)]"
    | "tr' = tr @ map (\<lambda>c. (c, 0)) [c0, c1] @ [(c2, - 1)]"
    by auto
  then show ?thesis by cases blast+
qed

lemma Guard_ctor_inactive:
  "\<not> (multi_user cfg \<noteq> 0 \<and> ruid t = 0) \<Longrightarrow> Guard_ctor cfg E t = Returned t"
  by (auto simp: Guard_ctor_def)

lemma Guard_dtor_inactive:
  "\<not> (multi_user cfg \<noteq> 0 \<and> ruid t = 0) \<Longrightarrow> Guard_dtor cfg E t = Returned t"
  by (auto simp: Guard_dtor_def)

lemma Guard_ctor_trace:
  "Guard_ctor cfg E t = Returned t' \<Longrightarrow> \<exists>cs. sys_trace t' = sys_trace t @ map (\<lambda>c. (c, 0)) cs"
  by (cases "multi_user cfg \<noteq> 0 \<and> ruid t = 0")
    (auto simp: Guard_ctor_def dest: drop_privileges_Returned(1) intro: exI[of _ "[]"])

lemma Guard_dtor_trace:
  "Guard_dtor cfg E t = Returned t' \<Longrightarrow> \<exists>cs. sys_trace t' = sys_trace t @ map (\<lambda>c. (c, 0)) cs"
  by (cases "multi_user cfg \<noteq> 0 \<and> ruid t = 0")
    (auto simp: Guard_dtor_def dest: restore_privileges_Returned(1) intro: exI[of _ "[]"])

lemma Guard_ctor_abort:
  "Guard_ctor cfg E t = Aborted m t' \<Longrightarrow>
     \<exists>cs c. sys_trace t' = sys_trace t @ map (\<lambda>c. (c, 0)) cs @ [(c, - 1)]"
  by (cases "multi_user cfg \<noteq> 0 \<and> ruid t = 0")
    (auto simp: Guard_ctor_def dest!: drop_privileges_Aborted intro!: failed_call_last)

lemma Guard_dtor_abort:
  "Guard_dtor cfg E t = Aborted m t' \<Longrightarrow>
     \<exists>cs c. sys_trace t' = sys_trace t @ map (\<lambda>c. (c, 0)) cs @ [(c, - 1)]"
  by (cases "multi_user cfg \<noteq> 0 \<and> ruid t = 0")
    (auto simp: Guard_dtor_def dest!: restore_privileges_Aborted intro!: failed_call_last)


lemma get_fuse_groups_abc: "get_fuse_groups abc_env = [27, 100]"
  by (rule get_fuse_groups_resolved[of _ "[27, 100]"]) (simp_all add: abc_env_def)

lemma acquire_abort_prefix:
  assumes "drop_privileges E t = Aborted m t'"
  shows "\<exists>n<3. sys_trace t' = sys_trace t @ map (\<lambda>c. (c, 0)) (take n (acquire_calls E))
                  @ [(acquire_calls E ! n, - 1)]"
proof -
  from drop_privileges_Aborted[OF assms] consider
      "sys_trace t' = sys_trace t @ map (\<lambda>c. (c, 0)) (take 0 (acquire_calls E))
                  @ [(acquire_calls E ! 0, - 1)]"
    | "sys_trace t' = sys_trace t @ map (\<lambda>c. (c, 0)) (take 1 (acquire_calls E))
                  @ [(acquire_calls E ! 1, - 1)]"
    | "sys_trace t' = sys_trace t @ map (\<lambda>c. (c, 0)) (take 2 (acquire_calls E))
                  @ [(acquire_calls E ! 2, - 1)]"
    by (auto simp: acquire_calls_def)
  then show ?thesis
  proof cases
    case 1
    then show ?thesis by (intro exI[of _ 0]) simp
  next
    case 2
    then show ?thesis by (intro exI[of _ 1]) simp
  next
    case 3
    then show ?thesis by (intro exI[of _ 2]) simp
  qed
qed

lemma release_abort_prefix:
  assumes "restore_privileges E t = Aborted m t'"
  shows "\<exists>n<3. sys_trace t' = sys_trace t @ map (\<lambda>c. (c, 0)) (take n release_calls)
                  @ [(release_calls ! n, - 1)]"
proof -
  from restore_privileges_Aborted[OF assms] consider
      "sys_trace t' = sys_trace t @ map (\<lambda>c. (c, 0)) (take 0 release_calls)
                  @ [(release_calls ! 0, - 1)]"
    | "sys_trace t' = sys_trace t @ map (\<lambda>c. (c, 0)) (take 1 release_calls)
                  @ [(release_calls ! 1, - 1)]"
    | "sys_trace t' = sys_trace t @ map (\<lambda>c. (c, 0)) (take 2 release_calls)
                  @ [(release_calls ! 2, - 1)]"
    by (auto simp: release_calls_def)
  then show ?thesis
  proof cases
    case 1
    then show ?thesis by (intro exI[of _ 0]) simp
  next
    case 2
    then show ?thesis by (intro exI[of _ 1]) simp
  next
    case 3
    then show ?thesis by (intro exI[of _ 2]) simp
  qed
qed

lemma drop_privileges_creds:
  assumes "drop_privileges E t = Returned t'"
  shows "groups t' = get_fuse_groups E"
    and "context_gid E \<noteq> - 1 \<Longrightarrow> egid t' = context_gid E"
    and "context_uid E \<noteq> - 1 \<Longrightarrow> euid t' = context_uid E"
  using assms
  by (auto simp: drop_privileges_def thread_setgroups_def thread_setegid_def thread_seteuid_def
      do_syscall_def perror_and_die_def Let_def split: if_splits)

lemma restore_privileges_creds:
  assumes "restore_privileges E t = Returned t'"
  shows "euid t' = 0 \<and> egid t' = 0 \<and> groups t' = []"
  using assms
  by (auto simp: restore_privileges_def thread_setgroups_def thread_setegid_def thread_seteuid_def
      do_syscall_def perror_and_die_def Let_def split: if_splits)

text \<open>
  C3. The guard is active only when \<open>multi_user\<close> is set and \<^verbatim>\<open>getuid()\<close> is 0;
  otherwise constructor and destructor leave the thread as it is. When active, the
  constructor issues \<^verbatim>\<open>setgroups\<close> with the groups \<^verbatim>\<open>get_fuse_groups\<close> resolved, then
  \<^verbatim>\<open>setresgid\<close> with the caller's gid, then \<^verbatim>\<open>setresuid\<close> with the caller's uid, and
  the thread then carries these credentials; the destructor issues \<^verbatim>\<open>setresuid\<close> to 0,
  then \<^verbatim>\<open>setresgid\<close> to 0, then \<^verbatim>\<open>setgroups\<close> with the empty list. When a call fails
  the calls issued so far are a prefix of the same sequence. The resolved groups are the
  caller's whenever \<^verbatim>\<open>fuse_getgroups\<close> succeeds and they fit the vector.
\<close>

theorem Guard_switch_order:
  "(\<not> (multi_user cfg \<noteq> 0 \<and> ruid t = 0) \<longrightarrow>
      Guard_ctor cfg E t = Returned t \<and> Guard_dtor cfg E t = Returned t) \<and>
   (multi_user cfg \<noteq> 0 \<and> ruid t = 0 \<longrightarrow>
      (\<forall>t'. Guard_ctor cfg E t = Returned t' \<longrightarrow>
         sys_trace t' = sys_trace t @
           [(SYS_setgroups (get_fuse_groups E), 0),
            (SYS_setresgid (- 1) (context_gid E) (- 1), 0),
            (SYS_setresuid (- 1) (context_uid E) (- 1), 0)] \<and>
         groups t' = get_fuse_groups E \<and>
         (context_gid E \<noteq> - 1 \<longrightarrow> egid t' = context_gid E) \<and>
         (context_uid E \<noteq> - 1 \<longrightarrow> euid t' = context_uid E)) \<and>
      (\<forall>m t'. Guard_ctor cfg E t = Aborted m t' \<longrightarrow>
         (\<exists>n<3. sys_trace t' = sys_trace t @ map (\<lambda>c. (c, 0)) (take n (acquire_calls E))
                   @ [(acquire_calls E ! n, - 1)])) \<and>
      (\<forall>t'. Guard_dtor cfg E t = Returned t' \<longrightarrow>
         sys_trace t' = sys_trace t @
           [(SYS_setresuid (- 1) 0 (- 1), 0), (SYS_setresgid (- 1) 0 (- 1), 0),
            (SYS_setgroups [], 0)] \<and>
         euid t' = 0 \<and> egid t' = 0 \<and> groups t' = []) \<and>
      (\<forall>m t'. Guard_dtor cfg E t = Aborted m t' \<longrightarrow>
         (\<exists>n<3. sys_trace t' = sys_trace t @ map (\<lambda>c. (c, 0)) (take n release_calls)
                   @ [(release_calls ! n, - 1)]))) \<and>
   (\<forall>gs. caller_groups E = Inr gs \<and>
         int (length gs) \<le> (if sysconf_NGROUPS_MAX E < 0 then 65536 else sysconf_NGROUPS_MAX E)
         \<longrightarrow> get_fuse_groups E = gs)"
proof (intro conjI impI allI)
  assume "\<not> (multi_user cfg \<noteq> 0 \<and> ruid t = 0)"
  then show "Guard_ctor cfg E t = Returned t" "Guard_dtor cfg E t = Returned t"
    by (rule Guard_ctor_inactive, rule Guard_dtor_inactive)
next
  fix t'
  assume a: "multi_user cfg \<noteq> 0 \<and> ruid t = 0" and r: "Guard_ctor cfg E t = Returned t'"
  then have d: "drop_privileges E t = Returned t'"
    by (simp add: Guard_ctor_def)
  from drop_privileges_Returned(1)[OF d]
  show "sys_trace t' = sys_trace t @
           [(SYS_setgroups (get_fuse_groups E), 0),
            (SYS_setresgid (- 1) (context_gid E) (- 1), 0),
            (SYS_setresuid (- 1) (context_uid E) (- 1), 0)]"
    by (simp add: acquire_calls_def)
  show "groups t' = get_fuse_groups E"
    by (rule drop_privileges_creds(1)[OF d])
  show "egid t' = context_gid E" if "context_gid E \<noteq> - 1"
    using that by (rule drop_privileges_creds(2)[OF d])
  show "euid t' = context_uid E" if "context_uid E \<noteq> - 1"
    using that by (rule drop_privileges_creds(3)[OF d])
next
  fix m t'
  assume "multi_user cfg \<noteq> 0 \<and> ruid t = 0" and "Guard_ctor cfg E t = Aborted m t'"
  then have "drop_privileges E t = Aborted m t'"
    by (simp add: Guard_ctor_def)
  then show "\<exists>n<3. sys_trace t' = sys_trace t @ map (\<lambda>c. (c, 0)) (take n (acquire_calls E))
                   @ [(acquire_calls E ! n, - 1)]"
    by (rule acquire_abort_prefix)
next
  fix t'
  assume "multi_user cfg \<noteq> 0 \<and> ruid t = 0" and "Guard_dtor cfg E t = Returned t'"
  then have d: "restore_privileges E t = Returned t'"
    by (simp add: Guard_dtor_def)
  from restore_privileges_Returned(1)[OF d]
  show "sys_trace t' = sys_trace t @
           [(SYS_setresuid (- 1) 0 (- 1), 0), (SYS_setresgid (- 1) 0 (- 1), 0),
            (SYS_setgroups [], 0)]"
    by (simp add: release_calls_def)
  from restore_privileges_creds[OF d]
  show "euid t' = 0" "egid t' = 0" "groups t' = []"
    by simp_all
next
  fix m t'
  assume "multi_user cfg \<noteq> 0 \<and> ruid t = 0" and "Guard_dtor cfg E t = Aborted m t'"
  then have "restore_privileges E t = Aborted m t'"
    by (simp add: Guard_dtor_def)
  then show "\<exists>n<3. sys_trace t' = sys_trace t @ map (\<lambda>c. (c, 0)) (take n release_calls)
                   @ [(release_calls ! n, - 1)]"
    by (rule release_abort_prefix)
next
  fix gs
  assume "caller_groups E = Inr gs \<and>
         int (length gs) \<le> (if sysconf_NGROUPS_MAX E < 0 then 65536 else sysconf_NGROUPS_MAX E)"
  then show "get_fuse_groups E = gs"
    using get_fuse_groups_resolved by blast
qed

lemma Guard_ctor_abc: "Guard_ctor multi_user_cfg abc_env root_thread = Returned caller_thread"
  unfolding Guard_ctor_def drop_privileges_def get_fuse_groups_abc
  by (simp add: multi_user_cfg_def config_default_def root_thread_def
      thread_setgroups_def thread_setegid_def thread_seteuid_def do_syscall_def
      caller_thread_def abc_env_def linux_permits_def Let_def)

lemma Guard_dtor_abc:
  "Guard_dtor multi_user_cfg abc_env caller_thread = Returned restored_thread"
  unfolding Guard_dtor_def restore_privileges_def
  by (simp add: multi_user_cfg_def config_default_def root_thread_def restored_thread_def
      thread_setgroups_def thread_setegid_def thread_seteuid_def do_syscall_def
      caller_thread_def abc_env_def linux_permits_def Let_def)

theorem Guard_switch_order_witness:
  "(multi_user multi_user_cfg \<noteq> 0 \<and> ruid root_thread = 0) \<and>
   Guard_ctor multi_user_cfg abc_env root_thread = Returned caller_thread \<and>
   sys_trace caller_thread = sys_trace root_thread @
     [(SYS_setgroups (get_fuse_groups abc_env), 0),
      (SYS_setresgid (- 1) (context_gid abc_env) (- 1), 0),
      (SYS_setresuid (- 1) (context_uid abc_env) (- 1), 0)] \<and>
   groups caller_thread = get_fuse_groups abc_env \<and>
   get_fuse_groups abc_env = [27, 100] \<and>
   (multi_user multi_user_cfg \<noteq> 0 \<and> ruid caller_thread = 0) \<and>
   Guard_dtor multi_user_cfg abc_env caller_thread = Returned restored_thread \<and>
   sys_trace restored_thread = sys_trace caller_thread @
     [(SYS_setresuid (- 1) 0 (- 1), 0), (SYS_setresgid (- 1) 0 (- 1), 0),
      (SYS_setgroups [], 0)] \<and>
   euid restored_thread = 0 \<and> egid restored_thread = 0 \<and> groups restored_thread = [] \<and>
   \<not> (multi_user config_default \<noteq> 0 \<and> ruid root_thread = 0) \<and>
   Guard_ctor config_default abc_env root_thread = Returned root_thread \<and>
   Guard_dtor config_default abc_env root_thread = Returned root_thread"
proof -
  have act1: "multi_user multi_user_cfg \<noteq> 0 \<and> ruid root_thread = 0"
    by (simp add: multi_user_cfg_def root_thread_def)
  have act2: "multi_user multi_user_cfg \<noteq> 0 \<and> ruid caller_thread = 0"
    by (simp add: multi_user_cfg_def caller_thread_def)
  have off: "\<not> (multi_user config_default \<noteq> 0 \<and> ruid root_thread = 0)"
    by (simp add: config_default_def)
  have g: "caller_groups abc_env = Inr [27, 100] \<and>
         int (length [27, 100 :: gid_t]) \<le>
           (if sysconf_NGROUPS_MAX abc_env < 0 then 65536 else sysconf_NGROUPS_MAX abc_env)"
    by (simp add: abc_env_def)
  from Guard_switch_order[of multi_user_cfg root_thread abc_env] act1 Guard_ctor_abc
  have 1: "sys_trace caller_thread = sys_trace root_thread @
     [(SYS_setgroups (get_fuse_groups abc_env), 0),
      (SYS_setresgid (- 1) (context_gid abc_env) (- 1), 0),
      (SYS_setresuid (- 1) (context_uid abc_env) (- 1), 0)] \<and>
     groups caller_thread = get_fuse_groups abc_env"
    by blast
  from Guard_switch_order[of multi_user_cfg root_thread abc_env] g
  have 2: "get_fuse_groups abc_env = [27, 100]"
    by blast
  from Guard_switch_order[of multi_user_cfg caller_thread abc_env] act2 Guard_dtor_abc
  have 3: "sys_trace restored_thread = sys_trace caller_thread @
     [(SYS_setresuid (- 1) 0 (- 1), 0), (SYS_setresgid (- 1) 0 (- 1), 0),
      (SYS_setgroups [], 0)] \<and>
     euid restored_thread = 0 \<and> egid restored_thread = 0 \<and> groups restored_thread = []"
    by blast
  from Guard_switch_order[of config_default root_thread abc_env] off
  have 4: "Guard_ctor config_default abc_env root_thread = Returned root_thread \<and>
     Guard_dtor config_default abc_env root_thread = Returned root_thread"
    by blast
  from act1 act2 off Guard_ctor_abc Guard_dtor_abc 1 2 3 4 show ?thesis
    by blast
qed


lemma trace_extend:
  "tr1 = tr @ map (\<lambda>c. (c, 0 :: int)) cs \<Longrightarrow> tr2 = tr1 @ map (\<lambda>c. (c, 0)) cs' \<Longrightarrow>
     \<exists>ds. tr2 = tr @ map (\<lambda>c. (c, 0)) ds"
  by (intro exI[of _ "cs @ cs'"]) simp

lemma trace_extend_failed:
  "tr1 = tr @ map (\<lambda>c. (c, 0 :: int)) cs \<Longrightarrow> tr2 = tr1 @ map (\<lambda>c. (c, 0)) cs' @ [(c, - 1)] \<Longrightarrow>
     \<exists>ds d. tr2 = tr @ map (\<lambda>c. (c, 0)) ds @ [(d, - 1)]"
  by (intro exI[of _ "cs @ cs'"] exI[of _ c]) simp

text \<open>
  C4. A failing credential system call is fatal, on the acquire and on the release path.
  Of an operation that runs under the guard: when it returns, every credential system
  call it issued returned 0 and its result is the result of its body (no failure was
  ignored or turned into an error code); when a call fails, the process aborts and that
  call is the last thing the thread did.
\<close>

theorem credential_failure_aborts:
  "(\<forall>r' t'. with_Guard cfg E r t = Returned (r', t') \<longrightarrow>
      r' = r \<and> (\<exists>cs. sys_trace t' = sys_trace t @ map (\<lambda>c. (c, 0)) cs)) \<and>
   (\<forall>m t'. with_Guard cfg E r t = Aborted m t' \<longrightarrow>
      (\<exists>cs c. sys_trace t' = sys_trace t @ map (\<lambda>c. (c, 0)) cs @ [(c, - 1)]))"
proof (intro conjI allI impI)
  fix r' t'
  assume a: "with_Guard cfg E r t = Returned (r', t')"
  then show "r' = r"
    by (rule with_Guard_Returned)
  from a obtain t1 where c: "Guard_ctor cfg E t = Returned t1"
    and d: "Guard_dtor cfg E t1 = Returned t'"
    by (auto simp: with_Guard_def split: outcome.splits)
  from Guard_ctor_trace[OF c] obtain cs where 1: "sys_trace t1 = sys_trace t @ map (\<lambda>c. (c, 0)) cs" ..
  from Guard_dtor_trace[OF d] obtain cs' where 2: "sys_trace t' = sys_trace t1 @ map (\<lambda>c. (c, 0)) cs'" ..
  show "\<exists>cs. sys_trace t' = sys_trace t @ map (\<lambda>c. (c, 0)) cs"
    by (rule trace_extend[OF 1 2])
next
  fix m t'
  assume a: "with_Guard cfg E r t = Aborted m t'"
  show "\<exists>cs c. sys_trace t' = sys_trace t @ map (\<lambda>c. (c, 0)) cs @ [(c, - 1)]"
  proof (cases "Guard_ctor cfg E t")
    case (Aborted m1 t1)
    with a have "t1 = t'"
      by (simp add: with_Guard_def)
    with Aborted show ?thesis
      by (simp add: Guard_ctor_abort)
  next
    case (Returned t1)
    with a have d: "Guard_dtor cfg E t1 = Aborted m t'"
      by (simp add: with_Guard_def split: outcome.splits)
    from Guard_ctor_trace[OF Returned] obtain cs where 1: "sys_trace t1 = sys_trace t @ map (\<lambda>c. (c, 0)) cs" ..
    from Guard_dtor_abort[OF d] obtain cs' c' where
      2: "sys_trace t' = sys_trace t1 @ map (\<lambda>c. (c, 0)) cs' @ [(c', - 1)]" by blast
    show ?thesis
      by (rule trace_extend_failed[OF 1 2])
  qed
qed

lemma get_fuse_groups_no_setgid: "get_fuse_groups no_setgid_env = [27, 100]"
  by (rule get_fuse_groups_resolved[of _ "[27, 100]"]) (simp_all add: no_setgid_env_def abc_env_def)

lemma with_Guard_no_setgid:
  "with_Guard multi_user_cfg no_setgid_env (0 :: int) root_thread =
     Aborted ''setegid'' setegid_refused_thread"
  unfolding with_Guard_def Guard_ctor_def drop_privileges_def get_fuse_groups_no_setgid
  by (simp add: multi_user_cfg_def config_default_def root_thread_def
      thread_setgroups_def thread_setegid_def thread_seteuid_def do_syscall_def
      setegid_refused_thread_def no_setgid_env_def abc_env_def perror_and_die_def Let_def)

theorem credential_failure_aborts_witness:
  "with_Guard multi_user_cfg no_setgid_env (0 :: int) root_thread =
     Aborted ''setegid'' setegid_refused_thread \<and>
   (\<exists>cs c. sys_trace setegid_refused_thread =
      sys_trace root_thread @ map (\<lambda>c. (c, 0)) cs @ [(c, - 1)]) \<and>
   sys_trace setegid_refused_thread =
     [(SYS_setgroups [27, 100], 0), (SYS_setresgid (- 1) 1000 (- 1), - 1)]"
proof -
  have "\<exists>cs c. sys_trace setegid_refused_thread =
      sys_trace root_thread @ map (\<lambda>c. (c, 0)) cs @ [(c, - 1)]"
    by (rule credential_failure_aborts[of multi_user_cfg no_setgid_env "0 :: int" root_thread,
          THEN conjunct2, rule_format, OF with_Guard_no_setgid])
  with with_Guard_no_setgid show ?thesis
    by (simp add: setegid_refused_thread_def)
qed

section \<open>The default configuration\<close>

lemma with_Guard_off:
  "multi_user cfg = 0 \<Longrightarrow> with_Guard cfg E r t = Returned (r, t)"
  by (simp add: with_Guard_def Guard_ctor_def Guard_dtor_def)

lemma readdir_no_shuffle:
  assumes "shuffle_dirents cfg = 0" and "snapshot info h = Some ds"
  shows "\<exists>r b taken. readdir cfg L rd filler buf info h = Some (r, b, taken, h) \<and>
           ((\<not> filler_refuses filler buf ds \<and> r = 0 \<and> taken = ds) \<or>
            (filler_refuses filler buf ds \<and> r = - ENOMEM \<and> (\<exists>d rest. ds = taken @ d # rest)))"
proof -
  obtain r b taken where l: "fill_loop filler buf ds = (r, b, taken)"
    by (cases "fill_loop filler buf ds")
  from assms(2) have g: "heap_get h (fh info) = Some ds"
    by (simp add: snapshot_def)
  then have "h ! fh info = Some ds"
    by (auto simp: heap_get_def split: if_splits)
  then have "h[fh info := Some ds] = h"
    by (metis list_update_id)
  then have "readdir cfg L rd filler buf info h = Some (r, b, taken, h)"
    using l g assms(1) by (simp add: readdir_def Let_def)
  with fill_loop_cases[OF l] show ?thesis
    by auto
qed

text \<open>
  C10. The default member initialisers enable \<open>reverse_dirents\<close> and set \<open>pad_blocks\<close>
  to 1; every other member is 0. Under this configuration a directory that opens is
  listed in the reverse of the order the filesystem yields (the snapshot is \<open>rev raw\<close>,
  and a \<^verbatim>\<open>readdir\<close> whose callback takes every entry hands over exactly that), and
  \<^verbatim>\<open>getattr\<close> and \<^verbatim>\<open>fgetattr\<close> report \<^verbatim>\<open>st_blocks\<close> one higher than \<^verbatim>\<open>lstat\<close> and
  \<^verbatim>\<open>fstat\<close> do (in the 64-bit arithmetic of \<^verbatim>\<open>blkcnt_t\<close>).
\<close>

theorem default_configuration:
  "(multi_user config_default = 0 \<and> shuffle_dirents config_default = 0 \<and>
    reverse_dirents config_default = 1 \<and> sort_dirents config_default = 0 \<and>
    pad_blocks config_default = 1 \<and> share_locks config_default = 0 \<and>
    quiet config_default = 0 \<and> sort_by_ctime config_default = 0) \<and>
   (fs_opendir E (root @ path) = Inr (raw, e) \<and>
    opendir config_default L E root path info h t = Returned (res, t') \<and> retval res = 0 \<longrightarrow>
      snapshot (info_out res) (heap_out res) = Some (rev raw) \<and>
      (\<exists>r b taken.
         readdir config_default L rd filler buf (info_out res) (heap_out res) =
           Some (r, b, taken, heap_out res) \<and>
         (\<not> filler_refuses filler buf (rev raw) \<longrightarrow> r = 0 \<and> taken = rev raw))) \<and>
   (fs_lstat E (root @ path) = Inr st' \<longrightarrow>
      getattr config_default E root path st t =
        Returned ((0, st'\<lparr>st_blocks := st_blocks st' + 1\<rparr>), t)) \<and>
   (fs_fstat E (fh info) = Inr st' \<longrightarrow>
      fgetattr config_default E st info = (0, st'\<lparr>st_blocks := st_blocks st' + 1\<rparr>))"
proof (intro conjI impI)
  assume a: "fs_opendir E (root @ path) = Inr (raw, e) \<and>
    opendir config_default L E root path info h t = Returned (res, t') \<and> retval res = 0"
  then have res: "res = opendir_body config_default L E root path info h"
    by (auto dest: opendir_Returned)
  from a snapshot_opendir_body[OF _ res]
  have "snapshot (info_out res) (heap_out res) =
          Some (reverse_step config_default
                  (fst (sort_step config_default L E (root @ path) raw 0)))"
    by blast
  then show s: "snapshot (info_out res) (heap_out res) = Some (rev raw)"
    by (simp add: reverse_step_def sort_step_def config_default_def)
  from readdir_no_shuffle[OF _ s, of config_default L rd filler buf]
  show "\<exists>r b taken.
         readdir config_default L rd filler buf (info_out res) (heap_out res) =
           Some (r, b, taken, heap_out res) \<and>
         (\<not> filler_refuses filler buf (rev raw) \<longrightarrow> r = 0 \<and> taken = rev raw)"
    by (auto simp: config_default_def)
next
  assume "fs_lstat E (root @ path) = Inr st'"
  then show "getattr config_default E root path st t =
        Returned ((0, st'\<lparr>st_blocks := st_blocks st' + 1\<rparr>), t)"
    by (simp add: getattr_def with_Guard_off getattr_body_def config_default_def)
next
  assume "fs_fstat E (fh info) = Inr st'"
  then show "fgetattr config_default E st info = (0, st'\<lparr>st_blocks := st_blocks st' + 1\<rparr>)"
    by (simp add: fgetattr_def config_default_def)
qed (simp_all add: config_default_def)

lemma opendir_default_abc:
  "opendir config_default insertion_lib abc_env ''/srv/tree'' ''/d'' \<lparr>fh = 7\<rparr> [] root_thread =
     Returned ((opened (rev abc_raw)), root_thread)"
  by (simp add: opendir_def with_Guard_def Guard_ctor_def Guard_dtor_def
      config_default_def opendir_body_def abc_env_def abc_raw_def sort_step_def
      reverse_step_def insertion_lib_def heap_new_def opened_def abc_raw_def)

theorem default_configuration_witness:
  "snapshot (info_out (opened (rev abc_raw))) (heap_out (opened (rev abc_raw))) = Some (rev abc_raw) \<and>
   \<not> filler_refuses take_all [] (rev abc_raw) \<and>
   (\<exists>r b taken.
      readdir config_default insertion_lib 0 take_all [] (info_out (opened (rev abc_raw)))
          (heap_out (opened (rev abc_raw))) = Some (r, b, taken, heap_out (opened (rev abc_raw))) \<and>
      (\<not> filler_refuses take_all [] (rev abc_raw) \<longrightarrow> r = 0 \<and> taken = rev abc_raw)) \<and>
   getattr config_default abc_env ''/srv/tree'' ''/d/a'' zero_stat root_thread =
     Returned ((0, abc_stat 1 100\<lparr>st_blocks := 9\<rparr>), root_thread) \<and>
   fgetattr config_default abc_env zero_stat \<lparr>fh = 5\<rparr> = (0, abc_stat 1 100\<lparr>st_blocks := 9\<rparr>)"
proof -
  have o: "fs_opendir abc_env (''/srv/tree'' @ ''/d'') = Inr (abc_raw, 0) \<and>
    opendir config_default insertion_lib abc_env ''/srv/tree'' ''/d'' \<lparr>fh = 7\<rparr> [] root_thread =
      Returned ((opened (rev abc_raw)), root_thread) \<and> retval (opened (rev abc_raw)) = 0"
    using opendir_default_abc by (simp add: abc_env_def opened_def abc_raw_def)
  have l: "fs_lstat abc_env (''/srv/tree'' @ ''/d/a'') = Inr (abc_stat 1 100)"
    by (simp add: abc_env_def)
  have f: "fs_fstat abc_env (fh \<lparr>fh = 5\<rparr>) = Inr (abc_stat 1 100)"
    by (simp add: abc_env_def)
  have 1: "snapshot (info_out (opened (rev abc_raw))) (heap_out (opened (rev abc_raw))) = Some (rev abc_raw)"
    by (rule default_configuration[where rd = 0 and filler = take_all and buf = "[]",
          THEN conjunct2, THEN conjunct1, THEN mp, OF o, THEN conjunct1])
  have 2: "getattr config_default abc_env ''/srv/tree'' ''/d/a'' zero_stat root_thread =
     Returned ((0, abc_stat 1 100\<lparr>st_blocks := st_blocks (abc_stat 1 100) + 1\<rparr>), root_thread)"
    by (rule default_configuration[THEN conjunct2, THEN conjunct2, THEN conjunct1, THEN mp, OF l])
  have 3: "fgetattr config_default abc_env zero_stat \<lparr>fh = 5\<rparr> =
     (0, abc_stat 1 100\<lparr>st_blocks := st_blocks (abc_stat 1 100) + 1\<rparr>)"
    by (rule default_configuration[THEN conjunct2, THEN conjunct2, THEN conjunct2, THEN mp, OF f])
  have 4: "\<exists>r b taken.
      readdir config_default insertion_lib 0 take_all [] (info_out (opened (rev abc_raw)))
          (heap_out (opened (rev abc_raw))) = Some (r, b, taken, heap_out (opened (rev abc_raw))) \<and>
      (\<not> filler_refuses take_all [] (rev abc_raw) \<longrightarrow> r = 0 \<and> taken = rev abc_raw)"
    by (rule default_configuration[THEN conjunct2, THEN conjunct1, THEN mp, OF o, THEN conjunct2])
  have 5: "\<not> filler_refuses take_all [] (rev abc_raw)"
    by (simp add: abc_raw_def take_all_def)
  from 1 2 3 4 5 show ?thesis
    by (simp add: abc_stat_def)
qed


section \<open>Reversal and sorting\<close>

lemma opendir_abc:
  "opendir no_reorder_cfg insertion_lib abc_env ''/srv/tree'' ''/d'' \<lparr>fh = 7\<rparr> [] root_thread =
     Returned (opened abc_raw, root_thread)"
  "opendir sort_only_cfg insertion_lib abc_env ''/srv/tree'' ''/d'' \<lparr>fh = 7\<rparr> [] root_thread =
     Returned (opened [(''a'', 1), (''b'', 2), (''c'', 3)], root_thread)"
  "opendir sort_reverse_cfg insertion_lib abc_env ''/srv/tree'' ''/d'' \<lparr>fh = 7\<rparr> [] root_thread =
     Returned (opened [(''c'', 3), (''b'', 2), (''a'', 1)], root_thread)"
  by (simp_all add: opendir_def with_Guard_def Guard_ctor_def Guard_dtor_def
      config_default_def opendir_body_def abc_env_def abc_raw_def sort_step_def
      reverse_step_def insertion_lib_def heap_new_def opened_def
      no_reorder_cfg_def sort_only_cfg_def sort_reverse_cfg_def)

lemma opendir_shuffle_only:
  "opendir shuffle_only_cfg insertion_lib abc_env ''/srv/tree'' ''/d'' \<lparr>fh = 7\<rparr> [] root_thread =
     Returned (opened [(''b'', 2), (''a'', 1), (''c'', 3)], root_thread)"
  by (simp add: opendir_def with_Guard_def Guard_ctor_def Guard_dtor_def
      config_default_def opendir_body_def abc_env_def abc_raw_def sort_step_def
      reverse_step_def insertion_lib_def heap_new_def opened_def shuffle_only_cfg_def)

text \<open>
  C7, as stated, fails: it promises the reverse of the raw order for every enumeration
  with \<open>reverse_dirents\<close> set and no sort active, whatever \<open>shuffle_dirents\<close> is. With
  \<open>shuffle_dirents\<close> set on top of the defaults, the directory with raw order \<open>c, a, b\<close>
  opens with the snapshot \<open>b, a, c\<close>, the reverse, and a \<^verbatim>\<open>readdir\<close> call with seed 1
  under a conforming library hands the callback \<open>a, c, b\<close>, which is not the reverse of
  the raw order.
\<close>

theorem shuffled_reverse_counterexample:
  "reverse_dirents shuffle_only_cfg \<noteq> 0 \<and> sort_dirents shuffle_only_cfg = 0 \<and>
   conforming insertion_lib \<and>
   opendir shuffle_only_cfg insertion_lib abc_env ''/srv/tree'' ''/d'' \<lparr>fh = 7\<rparr> [] root_thread =
     Returned (opened [(''b'', 2), (''a'', 1), (''c'', 3)], root_thread) \<and>
   readdir shuffle_only_cfg insertion_lib 1 take_all []
       (info_out (opened [(''b'', 2), (''a'', 1), (''c'', 3)]))
       (heap_out (opened [(''b'', 2), (''a'', 1), (''c'', 3)])) =
     Some (0, [(''a'', 1), (''c'', 3), (''b'', 2)], [(''a'', 1), (''c'', 3), (''b'', 2)],
           [Some [(''a'', 1), (''c'', 3), (''b'', 2)]]) \<and>
   [(''a'', 1), (''c'', 3), (''b'', 2)] \<noteq> rev abc_raw"
proof -
  have "readdir shuffle_only_cfg insertion_lib 1 take_all []
       (info_out (opened [(''b'', 2), (''a'', 1), (''c'', 3)]))
       (heap_out (opened [(''b'', 2), (''a'', 1), (''c'', 3)])) =
     Some (0, [(''a'', 1), (''c'', 3), (''b'', 2)], [(''a'', 1), (''c'', 3), (''b'', 2)],
           [Some [(''a'', 1), (''c'', 3), (''b'', 2)]])"
    by (simp add: readdir_def heap_get_def opened_def take_all_def zero_stat_def Let_def
        shuffle_only_cfg_def config_default_def insertion_lib_def)
  moreover have "reverse_dirents shuffle_only_cfg \<noteq> 0" "sort_dirents shuffle_only_cfg = 0"
    by (simp_all add: shuffle_only_cfg_def config_default_def)
  moreover have "[(''a'', 1), (''c'', 3), (''b'', 2 :: ino_t)] \<noteq> rev abc_raw"
    by (simp add: abc_raw_def)
  ultimately show ?thesis
    using opendir_shuffle_only conforming_insertion_lib by blast
qed

text \<open>
  C7, amended. The snapshot \<open>S\<close> of a directory that opens: with \<open>reverse_dirents\<close> set
  and \<open>sort_dirents\<close> clear it is the exact reverse of the raw order; with a sort active
  as well it is the reverse of the sorted sequence (the reversal is applied once, after
  the sort); without \<open>reverse_dirents\<close> it is the raw, respectively the sorted, sequence.
  With \<open>shuffle_dirents\<close> clear a \<^verbatim>\<open>readdir\<close> call hands the callback exactly \<open>S\<close> and
  leaves the snapshot alone; with \<open>shuffle_dirents\<close> set it hands over, and stores, what
  \<^verbatim>\<open>std::shuffle\<close> makes of \<open>S\<close> under the seed of the call, a permutation of the raw
  entries. The theorem after it evaluates the example of the claim, raw order \<open>c, a, b\<close>,
  and the shuffled call.
\<close>

theorem reverse_after_sort:
  assumes "conforming L"
    and "fs_opendir E (root @ path) = Inr (raw, e)"
    and "opendir cfg L E root path info h t = Returned (res, t')"
    and "retval res = 0"
  shows "\<exists>S. snapshot (info_out res) (heap_out res) = Some S \<and>
    (reverse_dirents cfg \<noteq> 0 \<and> sort_dirents cfg = 0 \<longrightarrow> S = rev raw) \<and>
    (reverse_dirents cfg \<noteq> 0 \<and> sort_dirents cfg \<noteq> 0 \<and> sort_by_ctime cfg = 0 \<longrightarrow>
       S = rev (sort raw)) \<and>
    (reverse_dirents cfg \<noteq> 0 \<and> sort_dirents cfg \<noteq> 0 \<and> sort_by_ctime cfg \<noteq> 0 \<longrightarrow>
       S = rev (map snd (std_sort_ctime L
             (map (\<lambda>i. (captured_ctime E (with_trailing_slash (root @ path)) i, i)) raw)))) \<and>
    (reverse_dirents cfg = 0 \<and> sort_dirents cfg = 0 \<longrightarrow> S = raw) \<and>
    (reverse_dirents cfg = 0 \<and> sort_dirents cfg \<noteq> 0 \<and> sort_by_ctime cfg = 0 \<longrightarrow>
       S = sort raw) \<and>
    (shuffle_dirents cfg = 0 \<longrightarrow>
       (\<exists>r b taken.
          readdir cfg L rd filler buf (info_out res) (heap_out res) =
            Some (r, b, taken, heap_out res) \<and>
          (\<not> filler_refuses filler buf S \<longrightarrow>
             r = 0 \<and> taken = S \<and> b = fed_buffer filler buf S))) \<and>
    (shuffle_dirents cfg \<noteq> 0 \<longrightarrow>
       (\<exists>r b taken h'.
          readdir cfg L rd filler buf (info_out res) (heap_out res) = Some (r, b, taken, h') \<and>
          snapshot (info_out res) h' = Some (std_shuffle L rd S) \<and>
          mset (std_shuffle L rd S) = mset raw \<and>
          (\<not> filler_refuses filler buf (std_shuffle L rd S) \<longrightarrow>
             r = 0 \<and> taken = std_shuffle L rd S \<and>
             b = fed_buffer filler buf (std_shuffle L rd S))))"
proof -
  let ?S = "reverse_step cfg (fst (sort_step cfg L E (root @ path) raw 0))"
  from assms(3) have res: "res = opendir_body cfg L E root path info h"
    by (rule opendir_Returned)
  from snapshot_opendir_body[OF assms(2) res assms(4)]
  have snap: "snapshot (info_out res) (heap_out res) = Some ?S" .
  have perm: "mset ?S = mset raw"
    using assms(1) by (simp add: mset_reverse_step mset_sort_step)
  have 1: "reverse_dirents cfg \<noteq> 0 \<and> sort_dirents cfg = 0 \<longrightarrow> ?S = rev raw"
    by (simp add: reverse_step_def sort_step_none)
  have 2: "reverse_dirents cfg \<noteq> 0 \<and> sort_dirents cfg \<noteq> 0 \<and> sort_by_ctime cfg = 0 \<longrightarrow>
       ?S = rev (sort raw)"
    using assms(1) by (simp add: reverse_step_def sort_step_alpha)
  have 3: "reverse_dirents cfg \<noteq> 0 \<and> sort_dirents cfg \<noteq> 0 \<and> sort_by_ctime cfg \<noteq> 0 \<longrightarrow>
       ?S = rev (map snd (std_sort_ctime L
             (map (\<lambda>i. (captured_ctime E (with_trailing_slash (root @ path)) i, i)) raw)))"
    using assms(1) by (simp add: reverse_step_def sort_step_ctime)
  have 4: "reverse_dirents cfg = 0 \<and> sort_dirents cfg = 0 \<longrightarrow> ?S = raw"
    by (simp add: reverse_step_def sort_step_none)
  have 5: "reverse_dirents cfg = 0 \<and> sort_dirents cfg \<noteq> 0 \<and> sort_by_ctime cfg = 0 \<longrightarrow>
       ?S = sort raw"
    using assms(1) by (simp add: reverse_step_def sort_step_alpha)
  from readdir_fed[OF assms(1) snap, of cfg rd filler buf]
  obtain r b taken h' where
    f: "readdir cfg L rd filler buf (info_out res) (heap_out res) = Some (r, b, taken, h')"
       "snapshot (info_out res) h' =
          Some (if shuffle_dirents cfg \<noteq> 0 then std_shuffle L rd ?S else ?S)"
       "mset (if shuffle_dirents cfg \<noteq> 0 then std_shuffle L rd ?S else ?S) = mset ?S"
       "\<not> filler_refuses filler buf (if shuffle_dirents cfg \<noteq> 0 then std_shuffle L rd ?S else ?S)
          \<longrightarrow> r = 0 \<and> taken = (if shuffle_dirents cfg \<noteq> 0 then std_shuffle L rd ?S else ?S) \<and>
              b = fed_buffer filler buf
                    (if shuffle_dirents cfg \<noteq> 0 then std_shuffle L rd ?S else ?S)"
    by blast
  have 6: "shuffle_dirents cfg = 0 \<longrightarrow>
       (\<exists>r b taken.
          readdir cfg L rd filler buf (info_out res) (heap_out res) =
            Some (r, b, taken, heap_out res) \<and>
          (\<not> filler_refuses filler buf ?S \<longrightarrow>
             r = 0 \<and> taken = ?S \<and> b = fed_buffer filler buf ?S))"
  proof
    assume off: "shuffle_dirents cfg = 0"
    from readdir_no_shuffle[OF off snap, of L rd filler buf] f(1)
    have "h' = heap_out res"
      by auto
    with f(1,4) off show "\<exists>r b taken.
          readdir cfg L rd filler buf (info_out res) (heap_out res) =
            Some (r, b, taken, heap_out res) \<and>
          (\<not> filler_refuses filler buf ?S \<longrightarrow>
             r = 0 \<and> taken = ?S \<and> b = fed_buffer filler buf ?S)"
      by auto
  qed
  have 7: "shuffle_dirents cfg \<noteq> 0 \<longrightarrow>
       (\<exists>r b taken h'.
          readdir cfg L rd filler buf (info_out res) (heap_out res) = Some (r, b, taken, h') \<and>
          snapshot (info_out res) h' = Some (std_shuffle L rd ?S) \<and>
          mset (std_shuffle L rd ?S) = mset raw \<and>
          (\<not> filler_refuses filler buf (std_shuffle L rd ?S) \<longrightarrow>
             r = 0 \<and> taken = std_shuffle L rd ?S \<and>
             b = fed_buffer filler buf (std_shuffle L rd ?S)))"
    using f perm by auto
  show ?thesis
    apply (rule exI[of _ ?S])
    apply (intro conjI)
           apply (rule snap)
          apply (rule 1)
         apply (rule 2)
        apply (rule 3)
       apply (rule 4)
      apply (rule 5)
     apply (rule 6)
    apply (rule 7)
    done
qed


lemma fs_opendir_abc: "fs_opendir abc_env (''/srv/tree'' @ ''/d'') = Inr (abc_raw, 0)"
  by (simp add: abc_env_def)

lemma retval_opened: "retval (opened ds) = 0"
  by (simp add: opened_def)

theorem reverse_after_sort_witness:
  "opendir no_reorder_cfg insertion_lib abc_env ''/srv/tree'' ''/d'' \<lparr>fh = 7\<rparr> [] root_thread =
     Returned (opened [(''c'', 3), (''a'', 1), (''b'', 2)], root_thread) \<and>
   opendir sort_only_cfg insertion_lib abc_env ''/srv/tree'' ''/d'' \<lparr>fh = 7\<rparr> [] root_thread =
     Returned (opened [(''a'', 1), (''b'', 2), (''c'', 3)], root_thread) \<and>
   opendir sort_reverse_cfg insertion_lib abc_env ''/srv/tree'' ''/d'' \<lparr>fh = 7\<rparr> [] root_thread =
     Returned (opened [(''c'', 3), (''b'', 2), (''a'', 1)], root_thread) \<and>
   opendir config_default insertion_lib abc_env ''/srv/tree'' ''/d'' \<lparr>fh = 7\<rparr> [] root_thread =
     Returned (opened [(''b'', 2), (''a'', 1), (''c'', 3)], root_thread) \<and>
   snapshot (info_out (opened [(''c'', 3), (''b'', 2), (''a'', 1)]))
     (heap_out (opened [(''c'', 3), (''b'', 2), (''a'', 1)])) = Some (rev (sort abc_raw)) \<and>
   snapshot (info_out (opened [(''b'', 2), (''a'', 1), (''c'', 3)]))
     (heap_out (opened [(''b'', 2), (''a'', 1), (''c'', 3)])) = Some (rev abc_raw) \<and>
   (\<exists>r b. readdir sort_reverse_cfg insertion_lib 0 take_all []
       (info_out (opened [(''c'', 3), (''b'', 2), (''a'', 1)]))
       (heap_out (opened [(''c'', 3), (''b'', 2), (''a'', 1)])) =
     Some (r, b, [(''c'', 3), (''b'', 2), (''a'', 1)],
           heap_out (opened [(''c'', 3), (''b'', 2), (''a'', 1)]))) \<and>
   (\<exists>r b h'. readdir shuffle_only_cfg insertion_lib 1 take_all []
       (info_out (opened [(''b'', 2), (''a'', 1), (''c'', 3)]))
       (heap_out (opened [(''b'', 2), (''a'', 1), (''c'', 3)])) =
     Some (r, b, [(''a'', 1), (''c'', 3), (''b'', 2)], h') \<and>
     snapshot (info_out (opened [(''b'', 2), (''a'', 1), (''c'', 3)])) h' =
       Some [(''a'', 1), (''c'', 3), (''b'', 2)])"
proof -
  let ?cba = "[(''c'', 3), (''b'', 2), (''a'', 1 :: ino_t)]"
  let ?bac = "[(''b'', 2), (''a'', 1), (''c'', 3 :: ino_t)]"
  let ?acb = "[(''a'', 1), (''c'', 3), (''b'', 2 :: ino_t)]"
  have flags: "reverse_dirents sort_reverse_cfg \<noteq> 0 \<and> sort_dirents sort_reverse_cfg \<noteq> 0 \<and>
      sort_by_ctime sort_reverse_cfg = 0" "shuffle_dirents sort_reverse_cfg = 0"
    "reverse_dirents config_default \<noteq> 0 \<and> sort_dirents config_default = 0"
    "reverse_dirents shuffle_only_cfg \<noteq> 0 \<and> sort_dirents shuffle_only_cfg = 0"
    "shuffle_dirents shuffle_only_cfg \<noteq> 0"
    by (simp_all add: sort_reverse_cfg_def config_default_def shuffle_only_cfg_def)
  have val: "rev (sort abc_raw) = ?cba" "rev abc_raw = ?bac"
    by (simp_all add: abc_raw_def)
  have sh: "std_shuffle insertion_lib 1 ?bac = ?acb"
    by (simp add: insertion_lib_def)
  have nr: "\<not> filler_refuses take_all [] ?cba" "\<not> filler_refuses take_all [] ?acb"
    by (simp_all add: take_all_def)
  have 1: "snapshot (info_out (opened ?cba)) (heap_out (opened ?cba)) = Some (rev (sort abc_raw)) \<and>
      (\<exists>r b. readdir sort_reverse_cfg insertion_lib 0 take_all [] (info_out (opened ?cba))
            (heap_out (opened ?cba)) = Some (r, b, ?cba, heap_out (opened ?cba)))"
    using reverse_after_sort[OF conforming_insertion_lib fs_opendir_abc opendir_abc(3)
        retval_opened, of 0 take_all "[]"]
  proof (elim exE conjE)
    fix S
    assume s: "snapshot (info_out (opened ?cba)) (heap_out (opened ?cba)) = Some S"
      "reverse_dirents sort_reverse_cfg \<noteq> 0 \<and> sort_dirents sort_reverse_cfg \<noteq> 0 \<and>
        sort_by_ctime sort_reverse_cfg = 0 \<longrightarrow> S = rev (sort abc_raw)"
      "shuffle_dirents sort_reverse_cfg = 0 \<longrightarrow>
         (\<exists>r b taken.
            readdir sort_reverse_cfg insertion_lib 0 take_all [] (info_out (opened ?cba))
              (heap_out (opened ?cba)) = Some (r, b, taken, heap_out (opened ?cba)) \<and>
            (\<not> filler_refuses take_all [] S \<longrightarrow>
               r = 0 \<and> taken = S \<and> b = fed_buffer take_all [] S))"
    from s(2) flags(1) have S: "S = ?cba"
      by (simp add: val)
    from s(3) flags(2) S nr(1)
    have "\<exists>r b. readdir sort_reverse_cfg insertion_lib 0 take_all [] (info_out (opened ?cba))
            (heap_out (opened ?cba)) = Some (r, b, ?cba, heap_out (opened ?cba))"
      by auto
    with s(1) S val(1) show ?thesis
      by simp
  qed
  have 2: "snapshot (info_out (opened ?bac)) (heap_out (opened ?bac)) = Some (rev abc_raw)"
    using reverse_after_sort[OF conforming_insertion_lib fs_opendir_abc opendir_default_abc
        retval_opened, of 0 take_all "[]"]
  proof (elim exE conjE)
    fix S
    assume s: "snapshot (info_out (opened (rev abc_raw))) (heap_out (opened (rev abc_raw))) =
        Some S"
      "reverse_dirents config_default \<noteq> 0 \<and> sort_dirents config_default = 0 \<longrightarrow>
         S = rev abc_raw"
    from s(2) flags(3) have S: "S = rev abc_raw"
      by simp
    from s(1) show ?thesis
      unfolding S val(2) .
  qed
  have 3: "\<exists>r b h'. readdir shuffle_only_cfg insertion_lib 1 take_all [] (info_out (opened ?bac))
            (heap_out (opened ?bac)) = Some (r, b, ?acb, h') \<and>
            snapshot (info_out (opened ?bac)) h' = Some ?acb"
    using reverse_after_sort[OF conforming_insertion_lib fs_opendir_abc opendir_shuffle_only
        retval_opened, of 1 take_all "[]"]
  proof (elim exE conjE)
    fix T
    assume t: "reverse_dirents shuffle_only_cfg \<noteq> 0 \<and> sort_dirents shuffle_only_cfg = 0 \<longrightarrow>
         T = rev abc_raw"
      "shuffle_dirents shuffle_only_cfg \<noteq> 0 \<longrightarrow>
         (\<exists>r b taken h'.
            readdir shuffle_only_cfg insertion_lib 1 take_all [] (info_out (opened ?bac))
              (heap_out (opened ?bac)) = Some (r, b, taken, h') \<and>
            snapshot (info_out (opened ?bac)) h' = Some (std_shuffle insertion_lib 1 T) \<and>
            mset (std_shuffle insertion_lib 1 T) = mset abc_raw \<and>
            (\<not> filler_refuses take_all [] (std_shuffle insertion_lib 1 T) \<longrightarrow>
               r = 0 \<and> taken = std_shuffle insertion_lib 1 T \<and>
               b = fed_buffer take_all [] (std_shuffle insertion_lib 1 T)))"
    from t(1) flags(4) have T: "T = ?bac"
      by (simp add: val)
    from t(2) flags(5) T sh nr(2) show ?thesis
      by auto
  qed
  have o: "opendir no_reorder_cfg insertion_lib abc_env ''/srv/tree'' ''/d'' \<lparr>fh = 7\<rparr> []
        root_thread = Returned (opened [(''c'', 3), (''a'', 1), (''b'', 2)], root_thread)"
    "opendir config_default insertion_lib abc_env ''/srv/tree'' ''/d'' \<lparr>fh = 7\<rparr> []
        root_thread = Returned (opened ?bac, root_thread)"
    using opendir_abc(1) opendir_default_abc by (simp_all add: abc_raw_def)
  show ?thesis
    apply (intro conjI)
           apply (rule o(1))
          apply (rule opendir_abc(2))
         apply (rule opendir_abc(3))
        apply (rule o(2))
       apply (rule 1[THEN conjunct1])
      apply (rule 2)
     apply (rule 1[THEN conjunct2])
    apply (rule 3)
    done
qed


section \<open>A callback that refuses an entry\<close>

text \<open>
  C9. When the callback refuses an entry during a \<^verbatim>\<open>readdir\<close> call on an open
  directory, the call returns \<open>- ENOMEM\<close>; the handle still points to a live snapshot
  with the same entries (the same order when \<open>shuffle_dirents\<close> is clear); any further
  \<^verbatim>\<open>readdir\<close> call on it is defined and, when its callback refuses nothing, returns 0
  and hands over the whole snapshot; and \<^verbatim>\<open>releasedir\<close> returns 0 and frees it.
\<close>

theorem refused_entry_keeps_session:
  fixes cfg :: Disorderfs_config and L :: stdlib and rd rd2 :: "32 word" and ds :: Dirents
  assumes "conforming L"
    and "snapshot info h = Some ds"
    and "filler_refuses filler buf
           (if shuffle_dirents cfg \<noteq> 0 then std_shuffle L rd ds else ds)"
  shows "\<exists>buf' taken h' ds'.
           readdir cfg L rd filler buf info h = Some (- ENOMEM, buf', taken, h') \<and>
           snapshot info h' = Some ds' \<and> mset ds' = mset ds \<and>
           (shuffle_dirents cfg = 0 \<longrightarrow> ds' = ds) \<and>
           (\<exists>r2 b2 taken2 h2 ds2.
              readdir cfg L rd2 filler2 buf2 info h' = Some (r2, b2, taken2, h2) \<and>
              snapshot info h2 = Some ds2 \<and> mset ds2 = mset ds \<and>
              (\<not> filler_refuses filler2 buf2 ds2 \<longrightarrow> r2 = 0 \<and> taken2 = ds2)) \<and>
           (\<exists>h''. releasedir info h' = Some (0, h'') \<and> snapshot info h'' = None)"
proof -
  let ?ds' = "if shuffle_dirents cfg \<noteq> 0 then std_shuffle L rd ds else ds"
  from readdir_step[OF assms(1,2), of cfg rd filler buf] assms(3)
  obtain b taken h' where
    1: "readdir cfg L rd filler buf info h = Some (- ENOMEM, b, taken, h')"
       "snapshot info h' = Some ?ds'" "mset ?ds' = mset ds"
    by auto
  let ?ds2 = "if shuffle_dirents cfg \<noteq> 0 then std_shuffle L rd2 ?ds' else ?ds'"
  from readdir_step[OF assms(1) 1(2), of cfg rd2 filler2 buf2]
  obtain r2 b2 taken2 h2 where
    2: "readdir cfg L rd2 filler2 buf2 info h' = Some (r2, b2, taken2, h2)"
       "snapshot info h2 = Some ?ds2" "mset ?ds2 = mset ?ds'"
       "\<not> filler_refuses filler2 buf2 ?ds2 \<longrightarrow> r2 = 0 \<and> taken2 = ?ds2"
    by auto
  from 2(3) 1(3) have 3: "mset ?ds2 = mset ds"
    by simp
  have 4: "shuffle_dirents cfg = 0 \<longrightarrow> ?ds' = ds"
    by simp
  from releasedir_live[OF 1(2)]
  have 5: "\<exists>h''. releasedir info h' = Some (0, h'') \<and> snapshot info h'' = None"
    by blast
  from 1(1,2,3) 4 2(1,2,4) 3 5 show ?thesis
    by blast
qed

lemma snapshot_opened: "snapshot (info_out (opened ds)) (heap_out (opened ds)) = Some ds"
  by (simp add: snapshot_def heap_get_def opened_def)

theorem refused_entry_keeps_session_witness:
  "filler_refuses (take_at_most 2) []
     (if shuffle_dirents sort_reverse_cfg \<noteq> 0
      then std_shuffle insertion_lib 0 [(''c'', 3), (''b'', 2), (''a'', 1)]
      else [(''c'', 3), (''b'', 2), (''a'', 1)]) \<and>
   (\<exists>buf' taken h' ds'.
      readdir sort_reverse_cfg insertion_lib 0 (take_at_most 2) []
          (info_out (opened [(''c'', 3), (''b'', 2), (''a'', 1)]))
          (heap_out (opened [(''c'', 3), (''b'', 2), (''a'', 1)])) =
        Some (- ENOMEM, buf', taken, h') \<and>
      snapshot (info_out (opened [(''c'', 3), (''b'', 2), (''a'', 1)])) h' = Some ds' \<and>
      mset ds' = mset [(''c'', 3), (''b'', 2), (''a'', 1)] \<and>
      (shuffle_dirents sort_reverse_cfg = 0 \<longrightarrow> ds' = [(''c'', 3), (''b'', 2), (''a'', 1)]) \<and>
      (\<exists>r2 b2 taken2 h2 ds2.
         readdir sort_reverse_cfg insertion_lib 0 take_all []
             (info_out (opened [(''c'', 3), (''b'', 2), (''a'', 1)])) h' =
           Some (r2, b2, taken2, h2) \<and>
         snapshot (info_out (opened [(''c'', 3), (''b'', 2), (''a'', 1)])) h2 = Some ds2 \<and>
         mset ds2 = mset [(''c'', 3), (''b'', 2), (''a'', 1)] \<and>
         (\<not> filler_refuses take_all [] ds2 \<longrightarrow> r2 = 0 \<and> taken2 = ds2)) \<and>
      (\<exists>h''. releasedir (info_out (opened [(''c'', 3), (''b'', 2), (''a'', 1)])) h' = Some (0, h'') \<and>
         snapshot (info_out (opened [(''c'', 3), (''b'', 2), (''a'', 1)])) h'' = None))"
proof -
  have r: "filler_refuses (take_at_most 2) []
     (if shuffle_dirents sort_reverse_cfg \<noteq> 0
      then std_shuffle insertion_lib 0 [(''c'', 3), (''b'', 2), (''a'', 1)]
      else [(''c'', 3), (''b'', 2), (''a'', 1)])"
    by (simp add: sort_reverse_cfg_def config_default_def take_at_most_def)
  from r refused_entry_keeps_session[OF conforming_insertion_lib snapshot_opened r,
      of 0 take_all "[]"]
  show ?thesis
    by (rule conjI)
qed

section \<open>Sorting by name\<close>

lemma sorted_names_of_sorted:
  fixes ds :: Dirents
  assumes "sorted ds"
  shows "sorted (map fst ds)"
proof -
  have "sorted_wrt (\<lambda>a b. fst a \<le> fst b) ds"
    by (rule sorted_wrt_mono_rel[OF _ assms]) (auto simp: less_eq_prod_def)
  then show ?thesis
    by (simp add: sorted_map)
qed

lemma sorted_of_distinct_names:
  fixes ds :: Dirents
  assumes "sorted (map fst ds)" and "distinct (map fst ds)"
  shows "sorted ds"
proof -
  from assms have "sorted_wrt (<) (map fst ds)"
    by (simp add: strict_sorted_iff)
  then have "sorted_wrt (\<lambda>a b. fst a < fst b) ds"
    by (simp add: sorted_wrt_map)
  then show ?thesis
    by (rule sorted_wrt_mono_rel[rotated]) (auto simp: less_eq_prod_def)
qed

lemma sort_is_stable_sort_by_name:
  fixes raw :: Dirents
  assumes "distinct (map fst raw)"
  shows "sort raw = stable_sort_by_name raw"
proof -
  have m: "mset (sort_key fst raw) = mset raw"
    by simp
  have "mset (map fst (sort_key fst raw)) = mset (map fst raw)"
    by simp
  with assms have "distinct (map fst (sort_key fst raw))"
    by (metis mset_eq_imp_distinct_iff)
  moreover have "sorted (map fst (sort_key fst raw))"
    by (rule sorted_sort_key)
  ultimately have "sorted (sort_key fst raw)"
    by (simp add: sorted_of_distinct_names)
  with m show ?thesis
    unfolding stable_sort_by_name_def by (rule properties_for_sort)
qed

lemma opendir_twin:
  "opendir sort_only_cfg insertion_lib twin_env ''/srv/tree'' ''/d'' \<lparr>fh = 7\<rparr> [] root_thread =
     Returned (opened [(''a'', 3), (''a'', 5)], root_thread)"
  by (simp add: opendir_def with_Guard_def Guard_ctor_def Guard_dtor_def
      config_default_def opendir_body_def abc_env_def twin_env_def sort_step_def
      reverse_step_def insertion_lib_def heap_new_def opened_def sort_only_cfg_def)

text \<open>
  C6, as stated, fails twice. With \<^verbatim>\<open>--sort-dirents=yes\<close> alone \<open>reverse_dirents\<close> keeps
  its default 1 and the listing of \<open>c, a, b\<close> is \<open>c, b, a\<close>, which is not non-decreasing
  by name. And the sort is \<^verbatim>\<open>std::sort\<close> on the (name, inode) pairs, not a stable sort
  by name: two entries of the same name come out ordered by inode, here \<open>(a, 3), (a, 5)\<close>
  for the captured \<open>(a, 5), (a, 3)\<close>, which a stable sort by name leaves as they are.
\<close>

theorem name_sort_counterexample:
  "(sort_dirents sort_reverse_cfg \<noteq> 0 \<and> sort_by_ctime sort_reverse_cfg = 0 \<and>
    sort_reverse_cfg = config_default\<lparr>sort_dirents := 1\<rparr> \<and>
    opendir sort_reverse_cfg insertion_lib abc_env ''/srv/tree'' ''/d'' \<lparr>fh = 7\<rparr> [] root_thread =
      Returned (opened [(''c'', 3), (''b'', 2), (''a'', 1)], root_thread) \<and>
    readdir sort_reverse_cfg insertion_lib 0 take_all []
        (info_out (opened [(''c'', 3), (''b'', 2), (''a'', 1)]))
        (heap_out (opened [(''c'', 3), (''b'', 2), (''a'', 1)])) =
      Some (0, [(''c'', 3), (''b'', 2), (''a'', 1)], [(''c'', 3), (''b'', 2), (''a'', 1)],
            heap_out (opened [(''c'', 3), (''b'', 2), (''a'', 1)])) \<and>
    \<not> sorted (map fst [(''c'', 3 :: ino_t), (''b'', 2), (''a'', 1)])) \<and>
   (sort_dirents sort_only_cfg \<noteq> 0 \<and> sort_by_ctime sort_only_cfg = 0 \<and>
    fs_opendir twin_env (''/srv/tree'' @ ''/d'') = Inr ([(''a'', 5), (''a'', 3)], 0) \<and>
    opendir sort_only_cfg insertion_lib twin_env ''/srv/tree'' ''/d'' \<lparr>fh = 7\<rparr> [] root_thread =
      Returned (opened [(''a'', 3), (''a'', 5)], root_thread) \<and>
    stable_sort_by_name [(''a'', 5), (''a'', 3)] = [(''a'', 5), (''a'', 3)] \<and>
    [(''a'', 3), (''a'', 5 :: ino_t)] \<noteq> stable_sort_by_name [(''a'', 5), (''a'', 3)])"
  using opendir_abc(3) opendir_twin
  by (simp add: sort_reverse_cfg_def sort_only_cfg_def config_default_def twin_env_def
      abc_env_def stable_sort_by_name_def readdir_def heap_get_def opened_def take_all_def
      zero_stat_def Let_def)

text \<open>
  C6, amended. With \<open>sort_dirents\<close> set and \<open>sort_by_ctime\<close> clear, a directory that
  opens has the snapshot \<open>sort raw\<close>, the captured entries in the order of their
  (name, inode) pairs, when \<open>reverse_dirents\<close> is clear: it is non-decreasing by name,
  and entries of the same name are ordered by inode. With \<open>reverse_dirents\<close> set (the
  default) the snapshot is the reverse of that, non-increasing by name. When no name
  occurs twice, \<open>sort raw\<close> is the stable sort by name. While \<open>shuffle_dirents\<close> is
  clear a \<^verbatim>\<open>readdir\<close> call hands the callback exactly the snapshot.
\<close>

theorem name_sort_without_reverse:
  assumes "conforming L"
    and "fs_opendir E (root @ path) = Inr (raw, e)"
    and "opendir cfg L E root path info h t = Returned (res, t')"
    and "retval res = 0"
    and "sort_dirents cfg \<noteq> 0" and "sort_by_ctime cfg = 0"
  shows "\<exists>S. snapshot (info_out res) (heap_out res) = Some S \<and>
    (reverse_dirents cfg = 0 \<longrightarrow> S = sort raw \<and> sorted (map fst S)) \<and>
    (reverse_dirents cfg \<noteq> 0 \<longrightarrow> S = rev (sort raw) \<and> sorted (rev (map fst S))) \<and>
    (distinct (map fst raw) \<longrightarrow> sort raw = stable_sort_by_name raw) \<and>
    (shuffle_dirents cfg = 0 \<longrightarrow>
       (\<exists>r b taken.
          readdir cfg L rd filler buf (info_out res) (heap_out res) =
            Some (r, b, taken, heap_out res) \<and>
          (\<not> filler_refuses filler buf S \<longrightarrow> r = 0 \<and> taken = S)))"
proof -
  let ?S = "reverse_step cfg (fst (sort_step cfg L E (root @ path) raw 0))"
  from assms(3) have res: "res = opendir_body cfg L E root path info h"
    by (rule opendir_Returned)
  from snapshot_opendir_body[OF assms(2) res assms(4)]
  have snap: "snapshot (info_out res) (heap_out res) = Some ?S" .
  have n: "sorted (map fst (sort raw))"
    by (rule sorted_names_of_sorted) simp
  have 1: "reverse_dirents cfg = 0 \<longrightarrow> ?S = sort raw \<and> sorted (map fst ?S)"
    using assms(1,5,6) n by (simp add: reverse_step_def sort_step_alpha)
  have 2: "reverse_dirents cfg \<noteq> 0 \<longrightarrow> ?S = rev (sort raw) \<and> sorted (rev (map fst ?S))"
    using assms(1,5,6) n by (simp add: reverse_step_def sort_step_alpha rev_map)
  have 3: "distinct (map fst raw) \<longrightarrow> sort raw = stable_sort_by_name raw"
    by (simp add: sort_is_stable_sort_by_name)
  have 4: "shuffle_dirents cfg = 0 \<longrightarrow>
       (\<exists>r b taken.
          readdir cfg L rd filler buf (info_out res) (heap_out res) =
            Some (r, b, taken, heap_out res) \<and>
          (\<not> filler_refuses filler buf ?S \<longrightarrow> r = 0 \<and> taken = ?S))"
    using readdir_no_shuffle[OF _ snap, of cfg L rd filler buf] by auto
  from snap 1 2 3 4 show ?thesis
    by blast
qed

theorem name_sort_without_reverse_witness:
  "\<exists>S. snapshot (info_out (opened [(''a'', 1), (''b'', 2), (''c'', 3)]))
         (heap_out (opened [(''a'', 1), (''b'', 2), (''c'', 3)])) = Some S \<and>
    (reverse_dirents sort_only_cfg = 0 \<longrightarrow> S = sort abc_raw \<and> sorted (map fst S)) \<and>
    (reverse_dirents sort_only_cfg \<noteq> 0 \<longrightarrow> S = rev (sort abc_raw) \<and> sorted (rev (map fst S))) \<and>
    (distinct (map fst abc_raw) \<longrightarrow> sort abc_raw = stable_sort_by_name abc_raw) \<and>
    (shuffle_dirents sort_only_cfg = 0 \<longrightarrow>
       (\<exists>r b taken.
          readdir sort_only_cfg insertion_lib 0 take_all []
              (info_out (opened [(''a'', 1), (''b'', 2), (''c'', 3)]))
              (heap_out (opened [(''a'', 1), (''b'', 2), (''c'', 3)])) =
            Some (r, b, taken, heap_out (opened [(''a'', 1), (''b'', 2), (''c'', 3)])) \<and>
          (\<not> filler_refuses take_all [] S \<longrightarrow> r = 0 \<and> taken = S)))"
proof -
  have f: "sort_dirents sort_only_cfg \<noteq> 0" "sort_by_ctime sort_only_cfg = 0"
    by (simp_all add: sort_only_cfg_def config_default_def)
  show ?thesis
    by (rule name_sort_without_reverse[OF conforming_insertion_lib fs_opendir_abc opendir_abc(2)
          retval_opened f])
qed


section \<open>Sorting by change time\<close>

lemmas opendir_eval =
  opendir_def with_Guard_def Guard_ctor_def Guard_dtor_def config_default_def opendir_body_def
  abc_env_def abc_raw_def abc_stat_def sort_step_def reverse_step_def insertion_lib_def
  reversing_lib_def heap_new_def opened_def opened_ctime_def abc_paths_def
  create_ctime_dirents_list_def with_trailing_slash_def overwrite_dirents_def ctime_key_def
  Let_def root_thread_def

lemma opendir_ctime_only:
  "opendir ctime_only_cfg insertion_lib abc_env ''/srv/tree'' ''/d'' \<lparr>fh = 7\<rparr> [] root_thread =
     Returned (opened [(''b'', 2), (''a'', 1), (''c'', 3)], root_thread)"
  by (simp add: opendir_eval ctime_only_cfg_def)

lemma opendir_ctime:
  "opendir ctime_cfg insertion_lib abc_env ''/srv/tree'' ''/d'' \<lparr>fh = 7\<rparr> [] root_thread =
     Returned (opened_ctime [(''b'', 2), (''c'', 3), (''a'', 1)], root_thread)"
  by (simp add: opendir_eval ctime_cfg_def)

lemma opendir_ctime_tie:
  "opendir ctime_forward_cfg reversing_lib tie_env ''/srv/tree'' ''/d'' \<lparr>fh = 7\<rparr> [] root_thread =
     Returned (opened_ctime [(''a'', 1), (''c'', 3), (''b'', 2)], root_thread)"
  by (simp add: opendir_eval ctime_forward_cfg_def ctime_cfg_def tie_env_def)

lemma captured_abc:
  "map (captured_ctime abc_env ''/srv/tree/d/'') [(''b'', 2), (''a'', 1), (''c'', 3)] =
     [seconds 300, seconds 100, seconds 200]"
  "map (captured_ctime abc_env ''/srv/tree/d/'') [(''b'', 2), (''c'', 3), (''a'', 1)] =
     [seconds 300, seconds 200, seconds 100]"
  "map (\<lambda>i. (captured_ctime tie_env ''/srv/tree/d/'' i, i)) abc_raw =
     [(seconds 100, (''c'', 3)), (seconds 100, (''a'', 1)), (seconds 300, (''b'', 2))]"
  by (simp_all add: captured_ctime_def abc_env_def abc_stat_def seconds_def tie_env_def abc_raw_def)

lemma readdir_calls_no_shuffle:
  assumes "shuffle_dirents cfg = 0" and "snapshot info h = Some ds"
  shows "\<exists>outs. readdir_calls cfg L calls info h = Some (outs, h) \<and>
           length outs = length calls \<and>
           (\<forall>(r, b, taken)\<in>set outs. r = 0 \<longrightarrow> taken = ds)"
proof (induction calls)
  case Nil
  then show ?case by simp
next
  case (Cons c calls)
  obtain rd filler buf where c: "c = (rd, filler, buf)"
    by (cases c)
  from readdir_no_shuffle[OF assms, of L rd filler buf]
  obtain r b taken where
    s: "readdir cfg L rd filler buf info h = Some (r, b, taken, h)" "r = 0 \<longrightarrow> taken = ds"
    by (auto simp: ENOMEM_def)
  from Cons.IH obtain outs where
    t: "readdir_calls cfg L calls info h = Some (outs, h)" "length outs = length calls"
       "\<forall>(r, b, taken)\<in>set outs. r = 0 \<longrightarrow> taken = ds"
    by blast
  have "readdir_calls cfg L (c # calls) info h = Some ((r, b, taken) # outs, h)"
    using c s(1) t(1) by simp
  with s(2) t(2,3) show ?case
    by auto
qed

text \<open>
  C5, as stated, fails in three ways, each at the directory \<open>c, a, b\<close>.
  \<^verbatim>\<open>--sort-by-ctime=yes\<close> alone sorts nothing, since the ctime sort sits inside
  \<^verbatim>\<open>if (config.sort_dirents)\<close>: no \<^verbatim>\<open>lstat\<close> is made and the listing \<open>b, a, c\<close> has the
  change times 300, 100, 200. With \<^verbatim>\<open>--sort-dirents=yes\<close> added, the default reversal
  makes the listing \<open>b, c, a\<close>, youngest first. \<^verbatim>\<open>std::sort\<close> is not a stable sort: a
  conforming library may hand back \<open>a, c, b\<close> when \<open>c\<close> and \<open>a\<close> have the same change
  time, where a stable sort keeps \<open>c, a, b\<close>.
\<close>

theorem ctime_sort_counterexample:
  "(sort_by_ctime ctime_only_cfg \<noteq> 0 \<and> ctime_only_cfg = config_default\<lparr>sort_by_ctime := 1\<rparr> \<and>
    opendir ctime_only_cfg insertion_lib abc_env ''/srv/tree'' ''/d'' \<lparr>fh = 7\<rparr> [] root_thread =
      Returned (opened [(''b'', 2), (''a'', 1), (''c'', 3)], root_thread) \<and>
    lstat_log (opened [(''b'', 2), (''a'', 1), (''c'', 3)]) = [] \<and>
    \<not> sorted_wrt (\<lambda>a b. \<not> timespec_less b a)
        (map (captured_ctime abc_env ''/srv/tree/d/'') [(''b'', 2), (''a'', 1), (''c'', 3)])) \<and>
   (sort_dirents ctime_cfg \<noteq> 0 \<and> sort_by_ctime ctime_cfg \<noteq> 0 \<and>
    opendir ctime_cfg insertion_lib abc_env ''/srv/tree'' ''/d'' \<lparr>fh = 7\<rparr> [] root_thread =
      Returned (opened_ctime [(''b'', 2), (''c'', 3), (''a'', 1)], root_thread) \<and>
    \<not> sorted_wrt (\<lambda>a b. \<not> timespec_less b a)
        (map (captured_ctime abc_env ''/srv/tree/d/'') [(''b'', 2), (''c'', 3), (''a'', 1)])) \<and>
   (conforming reversing_lib \<and>
    sort_dirents ctime_forward_cfg \<noteq> 0 \<and> sort_by_ctime ctime_forward_cfg \<noteq> 0 \<and>
    reverse_dirents ctime_forward_cfg = 0 \<and>
    opendir ctime_forward_cfg reversing_lib tie_env ''/srv/tree'' ''/d'' \<lparr>fh = 7\<rparr> [] root_thread =
      Returned (opened_ctime [(''a'', 1), (''c'', 3), (''b'', 2)], root_thread) \<and>
    map snd (stable_sort_by_ctime
        (map (\<lambda>i. (captured_ctime tie_env ''/srv/tree/d/'' i, i)) abc_raw)) =
      [(''c'', 3), (''a'', 1), (''b'', 2)])"
proof -
  have 1: "\<not> sorted_wrt (\<lambda>a b. \<not> timespec_less b a)
        (map (captured_ctime abc_env ''/srv/tree/d/'') [(''b'', 2), (''a'', 1), (''c'', 3)])"
    unfolding captured_abc by (simp add: seconds_def timespec_less_def)
  have 2: "\<not> sorted_wrt (\<lambda>a b. \<not> timespec_less b a)
        (map (captured_ctime abc_env ''/srv/tree/d/'') [(''b'', 2), (''c'', 3), (''a'', 1)])"
    unfolding captured_abc by (simp add: seconds_def timespec_less_def)
  have 3: "map snd (stable_sort_by_ctime
        (map (\<lambda>i. (captured_ctime tie_env ''/srv/tree/d/'' i, i)) abc_raw)) =
      [(''c'', 3), (''a'', 1), (''b'', 2)]"
    unfolding captured_abc by (simp add: stable_sort_by_ctime_def ctime_key_def seconds_def)
  have flags: "sort_by_ctime ctime_only_cfg \<noteq> 0"
    "sort_dirents ctime_cfg \<noteq> 0 \<and> sort_by_ctime ctime_cfg \<noteq> 0"
    "sort_dirents ctime_forward_cfg \<noteq> 0 \<and> sort_by_ctime ctime_forward_cfg \<noteq> 0 \<and>
     reverse_dirents ctime_forward_cfg = 0"
    "lstat_log (opened [(''b'', 2), (''a'', 1), (''c'', 3)]) = []"
    by (simp_all add: ctime_only_cfg_def ctime_cfg_def ctime_forward_cfg_def
        config_default_def opened_def)
  from 1 2 3 flags opendir_ctime_only opendir_ctime opendir_ctime_tie
    conforming_reversing_lib
  show ?thesis
    by (simp add: ctime_only_cfg_def)
qed

text \<open>
  C5, amended. With \<open>sort_dirents\<close> and \<open>sort_by_ctime\<close> both set, a directory that
  opens has had exactly one \<^verbatim>\<open>lstat\<close> per captured entry, in captured order; the keyed
  sequence of (captured change time, entry) is built from these answers alone and then
  handed to \<^verbatim>\<open>std::sort\<close>, whose result \<open>ks\<close> is a permutation of it in which no
  element has an earlier change time than one before it (the order among equal change
  times is the library's); the snapshot is the entries of \<open>ks\<close>, in this order when
  \<open>reverse_dirents\<close> is clear and in the reverse order when it is set. While
  \<open>shuffle_dirents\<close> is clear, every \<^verbatim>\<open>readdir\<close> call of the session that returns 0
  delivers the snapshot in this one order, and leaves the heap as it is.
\<close>

theorem ctime_sort_two_phase:
  assumes "conforming L"
    and "fs_opendir E (root @ path) = Inr (raw, e)"
    and "opendir cfg L E root path info h t = Returned (res, t')"
    and "retval res = 0"
    and "sort_dirents cfg \<noteq> 0" and "sort_by_ctime cfg \<noteq> 0"
  shows "lstat_log res = map (\<lambda>i. with_trailing_slash (root @ path) @ fst i) raw \<and>
    (\<exists>ks S.
       ks = std_sort_ctime L
              (map (\<lambda>i. (captured_ctime E (with_trailing_slash (root @ path)) i, i)) raw) \<and>
       mset ks = mset (map (\<lambda>i. (captured_ctime E (with_trailing_slash (root @ path)) i, i)) raw) \<and>
       sorted_wrt (\<lambda>a b. \<not> timespec_less (fst b) (fst a)) ks \<and>
       snapshot (info_out res) (heap_out res) = Some S \<and>
       (reverse_dirents cfg = 0 \<longrightarrow> S = map snd ks) \<and>
       (reverse_dirents cfg \<noteq> 0 \<longrightarrow> S = rev (map snd ks)) \<and>
       (shuffle_dirents cfg = 0 \<longrightarrow>
          (\<exists>outs. readdir_calls cfg L calls (info_out res) (heap_out res) =
                    Some (outs, heap_out res) \<and>
                  length outs = length calls \<and>
                  (\<forall>(r, b, taken)\<in>set outs. r = 0 \<longrightarrow> taken = S))))"
proof -
  let ?keyed = "map (\<lambda>i. (captured_ctime E (with_trailing_slash (root @ path)) i, i)) raw"
  let ?ks = "std_sort_ctime L ?keyed"
  let ?S = "reverse_step cfg (fst (sort_step cfg L E (root @ path) raw 0))"
  from assms(3) have res: "res = opendir_body cfg L E root path info h"
    by (rule opendir_Returned)
  from snapshot_opendir_body[OF assms(2) res assms(4)]
  have snap: "snapshot (info_out res) (heap_out res) = Some ?S" .
  from opendir_body_success[OF assms(2) assms(4)[unfolded res]] res
  have "lstat_log res = lstat_calls (snd (sort_step cfg L E (root @ path) raw 0))"
    by simp
  then have 1: "lstat_log res = map (\<lambda>i. with_trailing_slash (root @ path) @ fst i) raw"
    using assms(1,5,6) by (simp add: sort_step_ctime)
  from assms(1) have post: "std_sort_post compare_ctime_dirents ?keyed ?ks"
    by (simp add: conforming_def)
  then have 2: "mset ?ks = mset ?keyed"
    by (simp add: std_sort_post_def)
  from post have 3: "sorted_wrt (\<lambda>a b. \<not> timespec_less (fst b) (fst a)) ?ks"
    by (simp add: std_sort_post_def compare_ctime_dirents_def)
  have S: "fst (sort_step cfg L E (root @ path) raw 0) = map snd ?ks"
    using assms(1,5,6) by (simp add: sort_step_ctime)
  have 4: "reverse_dirents cfg = 0 \<longrightarrow> ?S = map snd ?ks"
    by (simp add: S reverse_step_def)
  have 5: "reverse_dirents cfg \<noteq> 0 \<longrightarrow> ?S = rev (map snd ?ks)"
    by (simp add: S reverse_step_def)
  have 6: "shuffle_dirents cfg = 0 \<longrightarrow>
          (\<exists>outs. readdir_calls cfg L calls (info_out res) (heap_out res) =
                    Some (outs, heap_out res) \<and>
                  length outs = length calls \<and>
                  (\<forall>(r, b, taken)\<in>set outs. r = 0 \<longrightarrow> taken = ?S))"
    using readdir_calls_no_shuffle[OF _ snap, of cfg L calls] by blast
  from 1 2 3 snap 4 5 6 show ?thesis
    by blast
qed


lemma retval_opened_ctime: "retval (opened_ctime ds) = 0"
  by (simp add: opened_ctime_def opened_def)

theorem ctime_sort_two_phase_witness:
  "lstat_log (opened_ctime [(''a'', 1), (''c'', 3), (''b'', 2)]) =
     map (\<lambda>i. with_trailing_slash (''/srv/tree'' @ ''/d'') @ fst i) abc_raw \<and>
   (\<exists>ks S.
      ks = std_sort_ctime insertion_lib
             (map (\<lambda>i. (captured_ctime abc_env (with_trailing_slash (''/srv/tree'' @ ''/d'')) i, i))
                abc_raw) \<and>
      mset ks =
        mset (map (\<lambda>i. (captured_ctime abc_env (with_trailing_slash (''/srv/tree'' @ ''/d'')) i, i))
                abc_raw) \<and>
      sorted_wrt (\<lambda>a b. \<not> timespec_less (fst b) (fst a)) ks \<and>
      snapshot (info_out (opened_ctime [(''a'', 1), (''c'', 3), (''b'', 2)]))
        (heap_out (opened_ctime [(''a'', 1), (''c'', 3), (''b'', 2)])) = Some S \<and>
      (reverse_dirents ctime_forward_cfg = 0 \<longrightarrow> S = map snd ks) \<and>
      (reverse_dirents ctime_forward_cfg \<noteq> 0 \<longrightarrow> S = rev (map snd ks)) \<and>
      (shuffle_dirents ctime_forward_cfg = 0 \<longrightarrow>
         (\<exists>outs. readdir_calls ctime_forward_cfg insertion_lib
                    [(1, take_all, []), (2, take_all, [])]
                    (info_out (opened_ctime [(''a'', 1), (''c'', 3), (''b'', 2)]))
                    (heap_out (opened_ctime [(''a'', 1), (''c'', 3), (''b'', 2)])) =
                   Some (outs, heap_out (opened_ctime [(''a'', 1), (''c'', 3), (''b'', 2)])) \<and>
                 length outs = length [(1 :: 32 word, take_all, [] :: Dirents), (2, take_all, [])] \<and>
                 (\<forall>(r, b, taken)\<in>set outs. r = 0 \<longrightarrow> taken = S))))"
proof -
  have o: "opendir ctime_forward_cfg insertion_lib abc_env ''/srv/tree'' ''/d'' \<lparr>fh = 7\<rparr> []
      root_thread = Returned (opened_ctime [(''a'', 1), (''c'', 3), (''b'', 2)], root_thread)"
    by (simp add: opendir_eval ctime_forward_cfg_def ctime_cfg_def)
  have f: "sort_dirents ctime_forward_cfg \<noteq> 0" "sort_by_ctime ctime_forward_cfg \<noteq> 0"
    by (simp_all add: ctime_forward_cfg_def ctime_cfg_def config_default_def)
  show ?thesis
    by (rule ctime_sort_two_phase[OF conforming_insertion_lib fs_opendir_abc o
          retval_opened_ctime f])
qed

section \<open>A failing \<^verbatim>\<open>lstat\<close> during the ctime capture\<close>

lemma lstat_failure_fails_opendir:
  assumes "sort_dirents cfg \<noteq> 0" and "sort_by_ctime cfg \<noteq> 0"
    and "fs_opendir E (root @ path) = Inr (raw, 0)"
    and "i \<in> set raw"
    and "fs_lstat E (with_trailing_slash (root @ path) @ fst i) = Inl e"
    and "\<forall>j\<in>set raw. \<forall>e'. fs_lstat E (with_trailing_slash (root @ path) @ fst j) = Inl e'
           \<longrightarrow> e' \<noteq> 0"
    and "fs_closedir E \<noteq> Some 0"
  shows "retval (opendir_body cfg L E root path info h) \<noteq> 0 \<and>
         info_out (opendir_body cfg L E root path info h) = info \<and>
         heap_out (opendir_body cfg L E root path info h) = h"
proof -
  from errno_ctime_loop_nonzero[OF assms(4,5,6)]
  have "errno (create_ctime_dirents_list E raw (root @ path) 0) \<noteq> 0"
    by (simp add: create_ctime_dirents_list_def)
  with assms(1,2,3,7) show ?thesis
    by (auto simp: opendir_body_def sort_step_def Let_def split: option.splits)
qed

text \<open>
  C2. The directory \<open>c, a, b\<close> is opened with the ctime sort active, and \<^verbatim>\<open>lstat\<close> fails
  for \<open>a\<close> with \<^verbatim>\<open>ENOENT\<close>. \<^verbatim>\<open>create_ctime_dirents_list\<close> does substitute \<open>INVALID\<close> and
  write the two warnings, but the failed \<^verbatim>\<open>lstat\<close> has left \<^verbatim>\<open>errno\<close> set, nothing resets
  it, and the test \<^verbatim>\<open>if (errno != 0) return -errno;\<close> after \<^verbatim>\<open>closedir\<close> (which
  succeeds) makes \<^verbatim>\<open>opendir\<close> return \<open>- ENOENT\<close>: \<^verbatim>\<open>info->fh\<close> is not set and no
  snapshot is stored. The lemma before it shows the same for every directory, entry and
  error number.
\<close>

theorem lstat_race_fails_opendir:
  "sort_dirents ctime_cfg \<noteq> 0 \<and> sort_by_ctime ctime_cfg \<noteq> 0 \<and>
   fs_opendir raced_env (''/srv/tree'' @ ''/d'') = Inr (abc_raw, 0) \<and>
   fs_lstat raced_env ''/srv/tree/d/a'' = Inl ENOENT \<and>
   fs_closedir raced_env = None \<and>
   create_ctime_dirents_list raced_env abc_raw ''/srv/tree/d'' 0 =
     \<lparr>result = [(seconds 200, (''c'', 3)), (INVALID, (''a'', 1)), (seconds 300, (''b'', 2))],
      lstat_calls = abc_paths, cerr = lstat_warning ''/srv/tree/d/a'', errno = ENOENT\<rparr> \<and>
   opendir ctime_cfg insertion_lib raced_env ''/srv/tree'' ''/d'' \<lparr>fh = 7\<rparr> [] root_thread =
     Returned (\<lparr>retval = - ENOENT, info_out = \<lparr>fh = 7\<rparr>, heap_out = [],
                cerr_out = lstat_warning ''/srv/tree/d/a'', lstat_log = abc_paths\<rparr>,
               root_thread) \<and>
   - ENOENT \<noteq> 0"
  by (simp add: opendir_eval ctime_cfg_def raced_env_def seconds_def ENOENT_def)


section \<open>Shuffling\<close>

text \<open>
  With \<open>shuffle_dirents\<close> set, a \<^verbatim>\<open>readdir\<close> call replaces the snapshot by what
  \<^verbatim>\<open>std::shuffle\<close> makes of it under the seed of this call, a permutation of the same
  entries, and hands that to the callback; with it clear, the call leaves the snapshot
  alone. The engine \<^verbatim>\<open>std::mt19937\<close> is constructed from one 32-bit value of
  \<^verbatim>\<open>std::random_device\<close>, so the order delivered is a function of that value and of the
  snapshot.
\<close>

lemma readdir_shuffle_permutes:
  assumes "conforming L" and "shuffle_dirents cfg \<noteq> 0" and "snapshot info h = Some ds"
  shows "\<exists>r b taken h'. readdir cfg L rd filler buf info h = Some (r, b, taken, h') \<and>
           snapshot info h' = Some (std_shuffle L rd ds) \<and>
           mset (std_shuffle L rd ds) = mset ds \<and>
           (\<not> filler_refuses filler buf (std_shuffle L rd ds) \<longrightarrow>
              r = 0 \<and> taken = std_shuffle L rd ds)"
  using readdir_step[OF assms(1,3), of cfg rd filler buf] assms(2) by auto

lemma permutations_of_13:
  fixes ds :: "'a list"
  assumes "distinct ds" and "length ds = 13"
  shows "card {p. mset p = mset ds} = 6227020800"
proof -
  have c: "card (set ds) = 13"
    using assms by (simp add: distinct_card)
  have "{p. mset p = mset ds} = {xs. length xs = 13 \<and> distinct xs \<and> set xs \<subseteq> set ds}"
  proof (intro set_eqI iffI; clarify)
    fix p assume "mset p = mset ds"
    then show "length p = 13 \<and> distinct p \<and> set p \<subseteq> set ds"
      using assms by (metis mset_eq_imp_distinct_iff mset_eq_length mset_eq_setD subset_refl)
  next
    fix xs :: "'a list"
    assume x: "length xs = 13" "distinct xs" "set xs \<subseteq> set ds"
    then have "card (set xs) = card (set ds)"
      using c by (simp add: distinct_card)
    with x(3) have "set xs = set ds"
      by (simp add: card_subset_eq)
    with x(2) assms(1) show "mset xs = mset ds"
      by (simp add: set_eq_iff_mset_eq_distinct)
  qed
  also have "card \<dots> = \<Prod>{card (set ds) - 13 + 1..card (set ds)}"
    by (rule card_lists_distinct_length_eq) (simp_all add: c)
  also have "\<dots> = fact 13"
    by (simp add: c fact_prod)
  also have "\<dots> = 6227020800"
    by (simp add: fact_numeral)
  finally show ?thesis .
qed

lemma shuffle_misses_a_permutation:
  fixes ds :: Dirents
  assumes "distinct ds" and "length ds = 13"
  shows "\<exists>p. mset p = mset ds \<and> (\<forall>seed. std_shuffle L seed ds \<noteq> p)"
proof (rule ccontr)
  assume "\<not> ?thesis"
  then have "{p. mset p = mset ds} \<subseteq> range (\<lambda>seed. std_shuffle L seed ds)"
    by blast
  then have "card {p. mset p = mset ds} \<le> card (range (\<lambda>seed. std_shuffle L seed ds))"
    by (intro card_mono) simp_all
  also have "\<dots> \<le> card (UNIV :: 32 word set)"
    by (rule card_image_le) simp
  also have "\<dots> = 4294967296"
    by (simp add: card_word)
  finally show False
    by (simp add: permutations_of_13[OF assms])
qed

text \<open>Two \<^verbatim>\<open>readdir\<close> calls on one session, with \<open>shuffle_dirents\<close> set and a library
  whose shuffle rotates: the second call delivers another order than the first, and the
  snapshot has changed in place.\<close>

lemma opendir_ctime_shuffle:
  "opendir ctime_shuffle_cfg insertion_lib abc_env ''/srv/tree'' ''/d'' \<lparr>fh = 7\<rparr> [] root_thread =
     Returned (opened_ctime [(''a'', 1), (''c'', 3), (''b'', 2)], root_thread)"
  by (simp add: opendir_eval ctime_shuffle_cfg_def ctime_forward_cfg_def ctime_cfg_def)

lemma readdir_twice_shuffled:
  "readdir_calls ctime_shuffle_cfg insertion_lib [(1, take_all, []), (1, take_all, [])]
       (info_out (opened_ctime [(''a'', 1), (''c'', 3), (''b'', 2)]))
       (heap_out (opened_ctime [(''a'', 1), (''c'', 3), (''b'', 2)])) =
     Some ([(0, [(''c'', 3), (''b'', 2), (''a'', 1)], [(''c'', 3), (''b'', 2), (''a'', 1)]),
            (0, [(''b'', 2), (''a'', 1), (''c'', 3)], [(''b'', 2), (''a'', 1), (''c'', 3)])],
           [Some [(''b'', 2), (''a'', 1), (''c'', 3)]])"
  by (simp add: readdir_def heap_get_def opened_def opened_ctime_def take_all_def zero_stat_def
      Let_def ctime_shuffle_cfg_def ctime_forward_cfg_def ctime_cfg_def config_default_def
      insertion_lib_def)

lemma take_all_never_refuses: "\<not> filler_refuses take_all buf ds"
  by (induction ds arbitrary: buf) (simp_all add: take_all_def)

lemma readdir_take_all:
  assumes "shuffle_dirents cfg \<noteq> 0"
  shows "readdir cfg L rd take_all [] \<lparr>fh = 0\<rparr> [Some ds] =
           Some (0, fed_buffer take_all [] (std_shuffle L rd ds), std_shuffle L rd ds,
                 [Some (std_shuffle L rd ds)])"
  using assms
  by (simp add: readdir_def heap_get_def Let_def fill_loop_buffer take_all_never_refuses)

lemma shuffle_short:
  assumes "conforming L" and "length ds \<le> 1"
  shows "std_shuffle L rd ds = ds"
proof -
  from assms(1) have m: "mset (std_shuffle L rd ds) = mset ds"
    by (simp add: conforming_def)
  show ?thesis
  proof (cases ds)
    case Nil
    with m show ?thesis by simp
  next
    case (Cons x xs)
    with assms(2) have "ds = [x]" by simp
    with m show ?thesis by simp
  qed
qed

lemma distinct_thirteen: "distinct thirteen \<and> length thirteen = 13"
  by (simp add: thirteen_def)

text \<open>
  C8, as stated, fails on the two points that can be decided from the code. First, not
  every permutation is equally likely: the order delivered is determined by the 32-bit
  seed, there are \<open>2\<^sup>3\<^sup>2\<close> seeds and \<open>13!\<close> orders of thirteen distinct entries, so under
  every library some order of the thirteen entries is delivered by no \<^verbatim>\<open>readdir\<close> call at
  all, while others are. Second, two consecutive calls need not differ: on a snapshot of
  one entry no two calls of any conforming library, under any seeds, deliver different
  orders.
\<close>

theorem shuffle_counterexample:
  "(\<forall>L. \<exists>p. mset p = mset thirteen \<and>
      \<not> (\<exists>rd r b h'. readdir shuffle_only_cfg L rd take_all [] \<lparr>fh = 0\<rparr> [Some thirteen] =
                        Some (r, b, p, h'))) \<and>
   \<not> (\<exists>L rd1 rd2 r1 b1 t1 r2 b2 t2 h'.
        conforming L \<and>
        readdir_calls shuffle_only_cfg L [(rd1, take_all, []), (rd2, take_all, [])]
          \<lparr>fh = 0\<rparr> [Some [(''a'', 1)]] = Some ([(r1, b1, t1), (r2, b2, t2)], h') \<and>
        t1 \<noteq> t2)"
proof (intro conjI allI notI)
  fix L :: stdlib
  have on: "shuffle_dirents shuffle_only_cfg \<noteq> 0"
    by (simp add: shuffle_only_cfg_def)
  from shuffle_misses_a_permutation[of thirteen L] distinct_thirteen
  obtain p where p: "mset p = mset thirteen" "\<forall>seed. std_shuffle L seed thirteen \<noteq> p"
    by blast
  have "\<not> (\<exists>rd r b h'. readdir shuffle_only_cfg L rd take_all [] \<lparr>fh = 0\<rparr> [Some thirteen] =
                        Some (r, b, p, h'))"
    using p(2) by (auto simp: readdir_take_all[OF on])
  with p(1) show "\<exists>p. mset p = mset thirteen \<and>
      \<not> (\<exists>rd r b h'. readdir shuffle_only_cfg L rd take_all [] \<lparr>fh = 0\<rparr> [Some thirteen] =
                        Some (r, b, p, h'))"
    by blast
next
  assume "\<exists>L rd1 rd2 r1 b1 t1 r2 b2 t2 h'.
        conforming L \<and>
        readdir_calls shuffle_only_cfg L [(rd1, take_all, []), (rd2, take_all, [])]
          \<lparr>fh = 0\<rparr> [Some [(''a'', 1)]] = Some ([(r1, b1, t1), (r2, b2, t2)], h') \<and>
        t1 \<noteq> t2"
  then obtain L rd1 rd2 r1 b1 t1 r2 b2 t2 h' where
    c: "conforming L" and
    r: "readdir_calls shuffle_only_cfg L [(rd1, take_all, []), (rd2, take_all, [])]
          \<lparr>fh = 0\<rparr> [Some [(''a'', 1)]] = Some ([(r1, b1, t1), (r2, b2, t2)], h')" and
    d: "t1 \<noteq> t2"
    by blast
  have on: "shuffle_dirents shuffle_only_cfg \<noteq> 0"
    by (simp add: shuffle_only_cfg_def)
  have s: "std_shuffle L rd [(''a'', 1)] = [(''a'', 1)]" for rd
    using c by (simp add: shuffle_short)
  from r have "t1 = t2"
    by (auto simp: readdir_take_all[OF on] s)
  with d show False
    by simp
qed

text \<open>
  C8, amended. With \<open>shuffle_dirents\<close> set, every \<^verbatim>\<open>readdir\<close> call replaces the stored
  snapshot by \<^verbatim>\<open>std::shuffle\<close> of it under the 32-bit seed drawn in that call and hands
  exactly that to the callback: a permutation of the same multiset, determined by the
  seed; a second call shuffles what the first one stored. A snapshot of fewer than two
  entries is never changed, and of the orders of thirteen distinct entries at least one
  is reached by no seed. With \<open>shuffle_dirents\<close> clear a call hands over the snapshot as
  it is and leaves it unchanged, so repeated calls on a session deliver one and the same
  order.
\<close>

theorem shuffle_per_call:
  fixes cfg :: Disorderfs_config and L :: stdlib and rd rd2 :: "32 word" and ds :: Dirents
  assumes "conforming L" and "snapshot info h = Some ds"
  shows "(shuffle_dirents cfg \<noteq> 0 \<longrightarrow>
      (\<exists>r b taken h'.
         readdir cfg L rd filler buf info h = Some (r, b, taken, h') \<and>
         snapshot info h' = Some (std_shuffle L rd ds) \<and>
         mset (std_shuffle L rd ds) = mset ds \<and>
         (\<not> filler_refuses filler buf (std_shuffle L rd ds) \<longrightarrow>
            r = 0 \<and> taken = std_shuffle L rd ds \<and>
            b = fed_buffer filler buf (std_shuffle L rd ds)) \<and>
         (\<exists>r2 b2 taken2 h2.
            readdir cfg L rd2 filler2 buf2 info h' = Some (r2, b2, taken2, h2) \<and>
            snapshot info h2 = Some (std_shuffle L rd2 (std_shuffle L rd ds)) \<and>
            mset (std_shuffle L rd2 (std_shuffle L rd ds)) = mset ds \<and>
            (\<not> filler_refuses filler2 buf2 (std_shuffle L rd2 (std_shuffle L rd ds)) \<longrightarrow>
               r2 = 0 \<and> taken2 = std_shuffle L rd2 (std_shuffle L rd ds) \<and>
               b2 = fed_buffer filler2 buf2 (std_shuffle L rd2 (std_shuffle L rd ds)))))) \<and>
    (length ds \<le> 1 \<longrightarrow> std_shuffle L rd ds = ds) \<and>
    (distinct ds \<and> length ds = 13 \<longrightarrow>
       (\<exists>p. mset p = mset ds \<and> (\<forall>seed. std_shuffle L seed ds \<noteq> p))) \<and>
    (shuffle_dirents cfg = 0 \<longrightarrow>
       (\<exists>r b taken.
          readdir cfg L rd filler buf info h = Some (r, b, taken, h) \<and>
          (\<not> filler_refuses filler buf ds \<longrightarrow>
             r = 0 \<and> taken = ds \<and> b = fed_buffer filler buf ds)) \<and>
       (\<exists>outs. readdir_calls cfg L calls info h = Some (outs, h) \<and>
               length outs = length calls \<and>
               (\<forall>(r, b, taken)\<in>set outs. r = 0 \<longrightarrow> taken = ds)))"
proof (intro conjI impI)
  assume on: "shuffle_dirents cfg \<noteq> 0"
  from readdir_shuffle_fed[OF assms(1) on assms(2), of rd filler buf]
  obtain r b taken h' where
    1: "readdir cfg L rd filler buf info h = Some (r, b, taken, h')"
       "snapshot info h' = Some (std_shuffle L rd ds)"
       "mset (std_shuffle L rd ds) = mset ds"
       "\<not> filler_refuses filler buf (std_shuffle L rd ds) \<longrightarrow>
            r = 0 \<and> taken = std_shuffle L rd ds \<and>
            b = fed_buffer filler buf (std_shuffle L rd ds)"
    by blast
  from readdir_shuffle_fed[OF assms(1) on 1(2), of rd2 filler2 buf2] 1(3)
  have 2: "\<exists>r2 b2 taken2 h2.
            readdir cfg L rd2 filler2 buf2 info h' = Some (r2, b2, taken2, h2) \<and>
            snapshot info h2 = Some (std_shuffle L rd2 (std_shuffle L rd ds)) \<and>
            mset (std_shuffle L rd2 (std_shuffle L rd ds)) = mset ds \<and>
            (\<not> filler_refuses filler2 buf2 (std_shuffle L rd2 (std_shuffle L rd ds)) \<longrightarrow>
               r2 = 0 \<and> taken2 = std_shuffle L rd2 (std_shuffle L rd ds) \<and>
               b2 = fed_buffer filler2 buf2 (std_shuffle L rd2 (std_shuffle L rd ds)))"
    by auto
  from 1 2 show "\<exists>r b taken h'.
         readdir cfg L rd filler buf info h = Some (r, b, taken, h') \<and>
         snapshot info h' = Some (std_shuffle L rd ds) \<and>
         mset (std_shuffle L rd ds) = mset ds \<and>
         (\<not> filler_refuses filler buf (std_shuffle L rd ds) \<longrightarrow>
            r = 0 \<and> taken = std_shuffle L rd ds \<and>
            b = fed_buffer filler buf (std_shuffle L rd ds)) \<and>
         (\<exists>r2 b2 taken2 h2.
            readdir cfg L rd2 filler2 buf2 info h' = Some (r2, b2, taken2, h2) \<and>
            snapshot info h2 = Some (std_shuffle L rd2 (std_shuffle L rd ds)) \<and>
            mset (std_shuffle L rd2 (std_shuffle L rd ds)) = mset ds \<and>
            (\<not> filler_refuses filler2 buf2 (std_shuffle L rd2 (std_shuffle L rd ds)) \<longrightarrow>
               r2 = 0 \<and> taken2 = std_shuffle L rd2 (std_shuffle L rd ds) \<and>
               b2 = fed_buffer filler2 buf2 (std_shuffle L rd2 (std_shuffle L rd ds))))"
    by blast
next
  assume "length ds \<le> 1"
  with assms(1) show "std_shuffle L rd ds = ds"
    by (rule shuffle_short)
next
  assume "distinct ds \<and> length ds = 13"
  then show "\<exists>p. mset p = mset ds \<and> (\<forall>seed. std_shuffle L seed ds \<noteq> p)"
    using shuffle_misses_a_permutation[of ds L] by blast
next
  assume off: "shuffle_dirents cfg = 0"
  from readdir_no_shuffle_fed[OF off assms(2)]
  show "\<exists>r b taken.
          readdir cfg L rd filler buf info h = Some (r, b, taken, h) \<and>
          (\<not> filler_refuses filler buf ds \<longrightarrow>
             r = 0 \<and> taken = ds \<and> b = fed_buffer filler buf ds)" .
next
  assume off: "shuffle_dirents cfg = 0"
  from readdir_calls_no_shuffle[OF off assms(2)]
  show "\<exists>outs. readdir_calls cfg L calls info h = Some (outs, h) \<and>
               length outs = length calls \<and>
               (\<forall>(r, b, taken)\<in>set outs. r = 0 \<longrightarrow> taken = ds)" .
qed

theorem shuffle_per_call_witness:
  "(\<exists>r b taken h'.
      readdir shuffle_only_cfg insertion_lib 1 take_all []
          (info_out (opened [(''b'', 2), (''a'', 1), (''c'', 3)]))
          (heap_out (opened [(''b'', 2), (''a'', 1), (''c'', 3)])) = Some (r, b, taken, h') \<and>
      snapshot (info_out (opened [(''b'', 2), (''a'', 1), (''c'', 3)])) h' =
        Some (std_shuffle insertion_lib 1 [(''b'', 2), (''a'', 1), (''c'', 3)]) \<and>
      mset (std_shuffle insertion_lib 1 [(''b'', 2), (''a'', 1), (''c'', 3)]) =
        mset [(''b'', 2), (''a'', 1), (''c'', 3)] \<and>
      (\<not> filler_refuses take_all []
           (std_shuffle insertion_lib 1 [(''b'', 2), (''a'', 1), (''c'', 3)]) \<longrightarrow>
         r = 0 \<and> taken = std_shuffle insertion_lib 1 [(''b'', 2), (''a'', 1), (''c'', 3)] \<and>
         b = fed_buffer take_all []
               (std_shuffle insertion_lib 1 [(''b'', 2), (''a'', 1), (''c'', 3)])) \<and>
      (\<exists>r2 b2 taken2 h2.
         readdir shuffle_only_cfg insertion_lib 1 take_all []
             (info_out (opened [(''b'', 2), (''a'', 1), (''c'', 3)])) h' =
           Some (r2, b2, taken2, h2) \<and>
         snapshot (info_out (opened [(''b'', 2), (''a'', 1), (''c'', 3)])) h2 =
           Some (std_shuffle insertion_lib 1
                   (std_shuffle insertion_lib 1 [(''b'', 2), (''a'', 1), (''c'', 3)])) \<and>
         mset (std_shuffle insertion_lib 1
                 (std_shuffle insertion_lib 1 [(''b'', 2), (''a'', 1), (''c'', 3)])) =
           mset [(''b'', 2), (''a'', 1), (''c'', 3)] \<and>
         (\<not> filler_refuses take_all []
              (std_shuffle insertion_lib 1
                 (std_shuffle insertion_lib 1 [(''b'', 2), (''a'', 1), (''c'', 3)])) \<longrightarrow>
            r2 = 0 \<and>
            taken2 = std_shuffle insertion_lib 1
                       (std_shuffle insertion_lib 1 [(''b'', 2), (''a'', 1), (''c'', 3)]) \<and>
            b2 = fed_buffer take_all []
                   (std_shuffle insertion_lib 1
                      (std_shuffle insertion_lib 1 [(''b'', 2), (''a'', 1), (''c'', 3)]))))) \<and>
   std_shuffle insertion_lib 1 [(''b'', 2), (''a'', 1), (''c'', 3)] =
     [(''a'', 1), (''c'', 3), (''b'', 2)] \<and>
   std_shuffle insertion_lib 1 [(''a'', 1), (''c'', 3), (''b'', 2)] =
     [(''c'', 3), (''b'', 2), (''a'', 1)] \<and>
   std_shuffle insertion_lib 1 [(''a'', 1)] = [(''a'', 1)] \<and>
   (\<exists>p. mset p = mset thirteen \<and> (\<forall>seed. std_shuffle insertion_lib seed thirteen \<noteq> p)) \<and>
   (\<exists>r b taken.
      readdir config_default insertion_lib 1 take_all []
          (info_out (opened [(''b'', 2), (''a'', 1), (''c'', 3)]))
          (heap_out (opened [(''b'', 2), (''a'', 1), (''c'', 3)])) =
        Some (r, b, taken, heap_out (opened [(''b'', 2), (''a'', 1), (''c'', 3)])) \<and>
      (\<not> filler_refuses take_all [] [(''b'', 2), (''a'', 1), (''c'', 3)] \<longrightarrow>
         r = 0 \<and> taken = [(''b'', 2), (''a'', 1), (''c'', 3)] \<and>
         b = fed_buffer take_all [] [(''b'', 2), (''a'', 1), (''c'', 3)])) \<and>
   (\<exists>outs.
      readdir_calls config_default insertion_lib [(1, take_all, []), (2, take_all, [])]
          (info_out (opened [(''b'', 2), (''a'', 1), (''c'', 3)]))
          (heap_out (opened [(''b'', 2), (''a'', 1), (''c'', 3)])) =
        Some (outs, heap_out (opened [(''b'', 2), (''a'', 1), (''c'', 3)])) \<and>
      length outs = length [(1 :: 32 word, take_all, [] :: Dirents), (2, take_all, [])] \<and>
      (\<forall>(r, b, taken)\<in>set outs. r = 0 \<longrightarrow> taken = [(''b'', 2), (''a'', 1), (''c'', 3)]))"
proof -
  have on: "shuffle_dirents shuffle_only_cfg \<noteq> 0"
    by (simp add: shuffle_only_cfg_def)
  have off: "shuffle_dirents config_default = 0"
    by (simp add: config_default_def)
  have short: "length [(''a'', 1 :: ino_t)] \<le> 1"
    by simp
  note c = conforming_insertion_lib
  note o = snapshot_opened[of "[(''b'', 2), (''a'', 1), (''c'', 3)]"]
  note 1 = shuffle_per_call[OF c o,
      where cfg = shuffle_only_cfg and rd = 1 and filler = take_all and buf = "[]"
        and ?rd2.0 = 1 and ?filler2.0 = take_all and ?buf2.0 = "[]",
      THEN conjunct1, THEN mp, OF on]
  note 2 = shuffle_per_call[OF c snapshot_opened[of "[(''a'', 1)]"], where rd = 1,
      THEN conjunct2, THEN conjunct1, THEN mp, OF short]
  note 3 = shuffle_per_call[OF c snapshot_opened[of thirteen],
      THEN conjunct2, THEN conjunct2, THEN conjunct1, THEN mp, OF distinct_thirteen]
  note 4 = shuffle_per_call[OF c o,
      where cfg = config_default and rd = 1 and filler = take_all and buf = "[]"
        and calls = "[(1, take_all, []), (2, take_all, [])]",
      THEN conjunct2, THEN conjunct2, THEN conjunct2, THEN mp, OF off]
  have v: "std_shuffle insertion_lib 1 [(''b'', 2), (''a'', 1), (''c'', 3)] =
       [(''a'', 1), (''c'', 3), (''b'', 2)]"
    "std_shuffle insertion_lib 1 [(''a'', 1), (''c'', 3), (''b'', 2)] =
       [(''c'', 3), (''b'', 2), (''a'', 1)]"
    by (simp_all add: insertion_lib_def)
  show ?thesis
    apply (intro conjI)
          apply (rule 1)
         apply (rule v(1))
        apply (rule v(2))
       apply (rule 2)
      apply (rule 3)
     apply (rule 4[THEN conjunct1])
    apply (rule 4[THEN conjunct2])
    done
qed


section \<open>Directory sessions preserve the entries\<close>

lemma opendir_all_flags_opened:
  "opendir all_flags insertion_lib abc_env ''/srv/tree'' ''/d'' \<lparr>fh = 7\<rparr> [] root_thread =
     Returned (opened [(''c'', 3), (''b'', 2), (''a'', 1)], root_thread)"
  by (simp add: opendir_eval all_flags_def)

text \<open>
  C1, as stated, fails for an enumerate call during which the callback refuses an
  entry: the loop of \<^verbatim>\<open>readdir\<close> stops there with \<^verbatim>\<open>-ENOMEM\<close>, and what was delivered
  is a proper prefix, not a permutation of the captured entries. Under the default
  configuration the directory with raw order \<open>c, a, b\<close> opens with the snapshot
  \<open>b, a, c\<close>; a callback that takes one entry and refuses the next receives \<open>b\<close> alone,
  \<open>a\<close> is offered and declined, and \<open>c\<close> is never offered.
\<close>

theorem refused_call_counterexample:
  "opendir config_default insertion_lib abc_env ''/srv/tree'' ''/d'' \<lparr>fh = 7\<rparr> [] root_thread =
     Returned (opened [(''b'', 2), (''a'', 1), (''c'', 3)], root_thread) \<and>
   readdir config_default insertion_lib 0 (take_at_most 1) []
       (info_out (opened [(''b'', 2), (''a'', 1), (''c'', 3)]))
       (heap_out (opened [(''b'', 2), (''a'', 1), (''c'', 3)])) =
     Some (- ENOMEM, [(''b'', 2)], [(''b'', 2)], [Some [(''b'', 2), (''a'', 1), (''c'', 3)]]) \<and>
   mset [(''b'', 2 :: ino_t)] \<noteq> mset abc_raw \<and>
   mset [(''b'', 2), (''a'', 1 :: ino_t)] \<noteq> mset abc_raw"
proof -
  have "size (mset [(''b'', 2 :: ino_t)]) \<noteq> size (mset abc_raw)"
    "size (mset [(''b'', 2), (''a'', 1 :: ino_t)]) \<noteq> size (mset abc_raw)"
    by (simp_all add: abc_raw_def)
  then have "mset [(''b'', 2 :: ino_t)] \<noteq> mset abc_raw"
    "mset [(''b'', 2), (''a'', 1 :: ino_t)] \<noteq> mset abc_raw"
    by metis+
  then show ?thesis
    by (simp add: opendir_eval readdir_def heap_get_def take_at_most_def zero_stat_def)
qed

text \<open>
  C1, amended. The library is any conforming one, the flags \<open>cfg\<close> are arbitrary, and the
  session is \<^verbatim>\<open>opendir\<close> returning 0, any list \<open>calls\<close> of \<^verbatim>\<open>readdir\<close> calls (each with
  its own random seed, callback and buffer), then \<^verbatim>\<open>releasedir\<close>. Every call is defined.
  A call during which the callback refuses no entry returns 0 and has handed the
  callback, entry by entry with its name and inode, a permutation of the captured
  entries \<open>raw\<close>; a call during which the callback refuses an entry returns \<^verbatim>\<open>-ENOMEM\<close>
  and has handed over the entries before the refused one, a proper prefix of such a
  permutation. Sort, reverse and shuffle add, remove, duplicate and alter nothing: the
  snapshot is a permutation of \<open>raw\<close> after every call, until \<^verbatim>\<open>releasedir\<close>, which
  returns 0 and leaves no snapshot behind.
\<close>

theorem session_entries_permutation:
  assumes "conforming L"
    and "fs_opendir E (root @ path) = Inr (raw, e)"
    and "opendir cfg L E root path info h t = Returned (res, t')"
    and "retval res = 0"
  shows "\<exists>outs h' ds.
           readdir_calls cfg L calls (info_out res) (heap_out res) = Some (outs, h') \<and>
           list_all2 (delivers raw) calls outs \<and>
           length outs = length calls \<and>
           (\<forall>(r, buf', taken)\<in>set outs.
              (r = 0 \<longrightarrow> mset taken = mset raw) \<and> mset taken \<subseteq># mset raw) \<and>
           snapshot (info_out res) h' = Some ds \<and> mset ds = mset raw \<and>
           (\<exists>h''. releasedir (info_out res) h' = Some (0, h'') \<and>
                  snapshot (info_out res) h'' = None)"
proof -
  let ?S = "reverse_step cfg (fst (sort_step cfg L E (root @ path) raw 0))"
  from assms(3) have res: "res = opendir_body cfg L E root path info h"
    by (rule opendir_Returned)
  from snapshot_opendir_body[OF assms(2) res assms(4)]
  have snap: "snapshot (info_out res) (heap_out res) = Some ?S" .
  have perm: "mset ?S = mset raw"
    using assms(1) by (simp add: mset_reverse_step mset_sort_step)
  from readdir_calls_deliver[OF assms(1) snap perm, of cfg calls]
  obtain outs h' ds' where
    d: "readdir_calls cfg L calls (info_out res) (heap_out res) = Some (outs, h')"
       "list_all2 (delivers raw) calls outs"
       "snapshot (info_out res) h' = Some ds'" "mset ds' = mset raw"
    by blast
  from readdir_calls_invariant[OF assms(1) snap, of cfg calls] d(1)
  have i: "length outs = length calls"
       "\<forall>(r, b, taken)\<in>set outs.
              (r = 0 \<longrightarrow> mset taken = mset ?S) \<and> mset taken \<subseteq># mset ?S \<and>
              (r = 0 \<or> r = - ENOMEM)"
    by auto
  from i(2) perm have j: "\<forall>(r, buf', taken)\<in>set outs.
              (r = 0 \<longrightarrow> mset taken = mset raw) \<and> mset taken \<subseteq># mset raw"
    by (auto simp: case_prod_beta)
  from releasedir_live[OF d(3)]
  have "\<exists>h''. releasedir (info_out res) h' = Some (0, h'') \<and> snapshot (info_out res) h'' = None"
    by blast
  with d i(1) j show ?thesis
    by blast
qed

theorem session_entries_permutation_witness:
  "(\<exists>outs h' ds.
      readdir_calls all_flags insertion_lib [(1, take_all, []), (1, take_at_most 2, [])]
        (info_out (opened [(''c'', 3), (''b'', 2), (''a'', 1)]))
        (heap_out (opened [(''c'', 3), (''b'', 2), (''a'', 1)])) = Some (outs, h') \<and>
      list_all2 (delivers abc_raw) [(1, take_all, []), (1, take_at_most 2, [])] outs \<and>
      length outs = length [(1 :: 32 word, take_all, [] :: Dirents), (1, take_at_most 2, [])] \<and>
      (\<forall>(r, buf', taken)\<in>set outs.
         (r = 0 \<longrightarrow> mset taken = mset abc_raw) \<and> mset taken \<subseteq># mset abc_raw) \<and>
      snapshot (info_out (opened [(''c'', 3), (''b'', 2), (''a'', 1)])) h' = Some ds \<and>
      mset ds = mset abc_raw \<and>
      (\<exists>h''. releasedir (info_out (opened [(''c'', 3), (''b'', 2), (''a'', 1)])) h' =
               Some (0, h'') \<and>
             snapshot (info_out (opened [(''c'', 3), (''b'', 2), (''a'', 1)])) h'' = None)) \<and>
   readdir_calls all_flags insertion_lib [(1, take_all, []), (1, take_at_most 2, [])]
       (info_out (opened [(''c'', 3), (''b'', 2), (''a'', 1)]))
       (heap_out (opened [(''c'', 3), (''b'', 2), (''a'', 1)])) =
     Some ([(0, [(''b'', 2), (''a'', 1), (''c'', 3)], [(''b'', 2), (''a'', 1), (''c'', 3)]),
            (- ENOMEM, [(''a'', 1), (''c'', 3)], [(''a'', 1), (''c'', 3)])],
           [Some [(''a'', 1), (''c'', 3), (''b'', 2)]])"
proof -
  have v: "readdir_calls all_flags insertion_lib [(1, take_all, []), (1, take_at_most 2, [])]
       (info_out (opened [(''c'', 3), (''b'', 2), (''a'', 1)]))
       (heap_out (opened [(''c'', 3), (''b'', 2), (''a'', 1)])) =
     Some ([(0, [(''b'', 2), (''a'', 1), (''c'', 3)], [(''b'', 2), (''a'', 1), (''c'', 3)]),
            (- ENOMEM, [(''a'', 1), (''c'', 3)], [(''a'', 1), (''c'', 3)])],
           [Some [(''a'', 1), (''c'', 3), (''b'', 2)]])"
    by (simp add: readdir_def heap_get_def opened_def take_all_def take_at_most_def zero_stat_def
        Let_def all_flags_def config_default_def insertion_lib_def)
  from session_entries_permutation[OF conforming_insertion_lib fs_opendir_abc
      opendir_all_flags_opened retval_opened,
      of "[(1, take_all, []), (1, take_at_most 2, [])]"] v
  show ?thesis
    by (rule conjI)
qed

end
